theory Spec2Isabelle
  imports Main
begin

section \<open>The dashboard controller of the grafana operator\<close>

text \<open>
  A shallow embedding of \<^verbatim>\<open>pkg/controller/grafanadashboard/dashboard_controller.go\<close>.
  The reconciler reads the cluster through \<^verbatim>\<open>r.client\<close>, talks to Grafana through a
  \<^verbatim>\<open>GrafanaClient\<close>, and keeps its bookkeeping in the shared \<^verbatim>\<open>r.config\<close>.
  Everything the reconciler mutates is gathered in one record that is passed through the
  functions and returned updated; everything it only reads is a record of collaborator
  functions. A nil pointer dereference is a value of the result type.
\<close>

subsection \<open>Errors\<close>

text \<open>
  Go's \<^verbatim>\<open>error\<close> values. The controller distinguishes only what
  \<^verbatim>\<open>errors.IsNotFound\<close> and \<^verbatim>\<open>errors.IsConflict\<close> of the Kubernetes API machinery
  tell it; every other error is a message.
\<close>

datatype error = NotFound string | Conflict string | OtherError string

fun IsNotFound :: "error \<Rightarrow> bool" where
  "IsNotFound (NotFound _) = True"
| "IsNotFound _ = False"

fun IsConflict :: "error \<Rightarrow> bool" where
  "IsConflict (Conflict _) = True"
| "IsConflict _ = False"

datatype go_panic = NilPointerDereference

subsection \<open>Resources\<close>

type_synonym labels = "string \<rightharpoonup> string"

text \<open>
  The fields of \<^verbatim>\<open>GrafanaDashboard\<close> the controller and its collaborators read:
  the object's namespace, name and labels, the raw definition and plugin list of its spec,
  and the hash and uid of its status.
\<close>

record GrafanaDashboard =
  d_Namespace :: string
  d_Name :: string
  d_Labels :: labels
  d_Json :: string
  d_Plugins :: "string list"
  d_Hash :: string
  d_UID :: string

text \<open>\<^verbatim>\<open>GrafanaDashboardRef\<close>: what the controller remembers of an applied dashboard.\<close>

record GrafanaDashboardRef =
  ref_Name :: string
  ref_Namespace :: string
  ref_UID :: string
  ref_Hash :: string

text \<open>\<^verbatim>\<open>metav1.LabelSelector\<close>, as configured on the Grafana resource.\<close>

record LabelSelector =
  MatchLabels :: "(string \<times> string) list"
  MatchExpressions :: "(string \<times> string \<times> string list) list"

text \<open>
  \<^verbatim>\<open>labels.Selector\<close> is an interface; the controller calls its methods
  \<^verbatim>\<open>Empty()\<close> and \<^verbatim>\<open>Matches(labels)\<close>.
\<close>

record Selector =
  sel_Empty :: bool
  sel_Matches :: "labels \<Rightarrow> bool"

text \<open>
  \<^verbatim>\<open>common.ControllerState\<close>: the snapshot the grafana controller publishes. A nil slice
  and a nil pointer are \<open>None\<close>.
\<close>

record ControllerState =
  GrafanaReady :: bool
  DashboardSelectors :: "LabelSelector list option"
  DashboardNamespaceSelector :: "LabelSelector option"
  AdminUrl :: string
  AdminUsername :: string
  AdminPassword :: string
  ClientTimeout :: int

record Request =
  req_Namespace :: string
  req_Name :: string

text \<open>
  \<^verbatim>\<open>reconcile.Result\<close>. The controller runtime requeues a request when the returned error
  is not nil, when \<^verbatim>\<open>Requeue\<close> is set, or after \<^verbatim>\<open>RequeueAfter\<close> when that is positive.
\<close>

record Result =
  Requeue :: bool
  RequeueAfter :: nat

definition Result_zero :: Result where
  "Result_zero = \<lparr>Requeue = False, RequeueAfter = 0\<rparr>"

subsection \<open>The Grafana client\<close>

text \<open>
  The responses of the Grafana API carry pointer fields (the controller reads
  \<^verbatim>\<open>folder.ID\<close>, \<^verbatim>\<open>*status.Status\<close> and \<^verbatim>\<open>*status.Message\<close>); a nil pointer is \<open>None\<close>.
\<close>

record GrafanaFolderResponse =
  folder_ID :: "int option"

record GrafanaResponse =
  resp_Status :: "string option"
  resp_Message :: "string option"

text \<open>
  \<^verbatim>\<open>GrafanaClient\<close> is an interface whose implementation is not part of the controller.
  Each method is a function of its arguments and of the state \<open>'g\<close> of the Grafana
  instance, returning Go's pair of a response and an error together with the new state.
\<close>

record 'g GrafanaClient =
  GetOrCreateNamespaceFolder :: "string \<Rightarrow> 'g \<Rightarrow> (GrafanaFolderResponse \<times> error option) \<times> 'g"
  CreateOrUpdateDashboard :: "string \<Rightarrow> int \<Rightarrow> 'g \<Rightarrow> (GrafanaResponse \<times> error option) \<times> 'g"
  DeleteDashboardByUID :: "string \<Rightarrow> 'g \<Rightarrow> (GrafanaResponse \<times> error option) \<times> 'g"

text \<open>The calls issued to Grafana, recorded in the order they are made.\<close>

datatype grafana_call =
  FolderCall string
| CreateOrUpdateCall string int
| DeleteCall string

subsection \<open>The registry of applied dashboards\<close>

text \<open>
  \<^verbatim>\<open>config.ControllerConfig\<close> is shared with the grafana controller. Its source is not
  part of the controller's file; the record holds what the methods called by the
  controller read and write: the known dashboards, the plugins recorded per dashboard,
  and the config item \<^verbatim>\<open>ConfigGrafanaDashboardsSynced\<close>.
\<close>

record ControllerConfig =
  Dashboards :: "GrafanaDashboardRef list"
  Plugins :: "(string \<times> string) \<rightharpoonup> string list"
  DashboardsSynced :: bool

definition same_ref :: "string \<Rightarrow> string \<Rightarrow> GrafanaDashboardRef \<Rightarrow> bool" where
  "same_ref ns name e = (ref_Namespace e = ns \<and> ref_Name e = name)"

text \<open>
  Modelled from the spec: \<^verbatim>\<open>GetDashboards\<close> is not in the controller's file. The spec's
  \<^verbatim>\<open>dashboardsIn(namespace)\<close>: the registry entries of that namespace.
\<close>

definition GetDashboards :: "string \<Rightarrow> ControllerConfig \<Rightarrow> GrafanaDashboardRef list" where
  "GetDashboards ns c = filter (\<lambda>e. ref_Namespace e = ns) (Dashboards c)"

text \<open>
  Modelled from the spec: \<^verbatim>\<open>AddDashboard\<close> is not in the controller's file. The spec's
  \<^verbatim>\<open>put(entry)\<close>: the entry of the dashboard's identity is created on the first apply and
  updated on every later one, with the fingerprint and remote identity of the dashboard's
  status; applying the same entry twice leaves the registry as it is.
\<close>

definition AddDashboard :: "GrafanaDashboard \<Rightarrow> ControllerConfig \<Rightarrow> ControllerConfig" where
  "AddDashboard d c =
     (let e = \<lparr>ref_Name = d_Name d, ref_Namespace = d_Namespace d,
                ref_UID = d_UID d, ref_Hash = d_Hash d\<rparr>
      in if list_ex (same_ref (d_Namespace d) (d_Name d)) (Dashboards c)
         then c\<lparr>Dashboards :=
                   map (\<lambda>x. if same_ref (d_Namespace d) (d_Name d) x then e else x) (Dashboards c)\<rparr>
         else c\<lparr>Dashboards := Dashboards c @ [e]\<rparr>)"

text \<open>
  Modelled from the spec: \<^verbatim>\<open>RemoveDashboard\<close> is not in the controller's file. The spec's
  \<^verbatim>\<open>remove(namespace,name)\<close>.
\<close>

definition RemoveDashboard :: "string \<Rightarrow> string \<Rightarrow> ControllerConfig \<Rightarrow> ControllerConfig" where
  "RemoveDashboard ns name c =
     c\<lparr>Dashboards := filter (\<lambda>x. \<not> same_ref ns name x) (Dashboards c)\<rparr>"

text \<open>
  Modelled from the spec: \<^verbatim>\<open>SetPluginsFor\<close> and \<^verbatim>\<open>RemovePluginsFor\<close> are not in the
  controller's file. They refresh and drop the auxiliary metadata of an entry, the
  plugin list of the dashboard.
\<close>

definition SetPluginsFor :: "GrafanaDashboard \<Rightarrow> ControllerConfig \<Rightarrow> ControllerConfig" where
  "SetPluginsFor d c = c\<lparr>Plugins := (Plugins c)((d_Namespace d, d_Name d) \<mapsto> d_Plugins d)\<rparr>"

definition RemovePluginsFor :: "string \<Rightarrow> string \<Rightarrow> ControllerConfig \<Rightarrow> ControllerConfig" where
  "RemovePluginsFor ns name c = c\<lparr>Plugins := (Plugins c)((ns, name) := None)\<rparr>"

text \<open>
  Modelled from the spec: \<^verbatim>\<open>AddConfigItem\<close> is not in the controller's file. The call
  \<^verbatim>\<open>AddConfigItem(config.ConfigGrafanaDashboardsSynced, true)\<close> is the spec's
  \<^verbatim>\<open>markSynced()\<close>.
\<close>

definition AddConfigItem_DashboardsSynced :: "ControllerConfig \<Rightarrow> ControllerConfig" where
  "AddConfigItem_DashboardsSynced c = c\<lparr>DashboardsSynced := True\<rparr>"

subsection \<open>What the reconciler changes, and what it reads\<close>

text \<open>
  The event recorder: \<^verbatim>\<open>r.recorder.Event(dashboard, type, reason, message)\<close> is recorded as
  the identity of the dashboard, the type and the reason.
\<close>

record event =
  ev_Namespace :: string
  ev_Name :: string
  ev_Type :: string
  ev_Reason :: string

record 'g world =
  remote :: 'g
  calls :: "grafana_call list"
  config :: ControllerConfig
  events :: "event list"

text \<open>
  The collaborators the controller calls and whose code is elsewhere: the Kubernetes
  client (\<^verbatim>\<open>List\<close> of the dashboards of a namespace, \<^verbatim>\<open>Get\<close> of a namespace object, of
  which the labels are read, and of a dashboard), \<^verbatim>\<open>metav1.LabelSelectorAsSelector\<close>,
  the method \<^verbatim>\<open>MatchesSelectors\<close> of a dashboard, the dashboard pipeline, the
  constructor of the Grafana client and the constant \<^verbatim>\<open>config.RequeueDelay\<close>.

  \<^verbatim>\<open>ProcessDashboard\<close> holds a pointer to the dashboard: it returns the hash and uid
  it writes into the dashboard's status, and Go's pair of the rendered payload (nil when
  the known hash is the dashboard's hash) and an error.
\<close>

record 'g env =
  client_List :: "string \<Rightarrow> error + GrafanaDashboard list"
  client_GetNamespace :: "string \<Rightarrow> error + labels"
  client_GetDashboard :: "string \<Rightarrow> string \<Rightarrow> error + GrafanaDashboard"
  LabelSelectorAsSelector :: "LabelSelector option \<Rightarrow> error + Selector"
  MatchesSelectors :: "GrafanaDashboard \<Rightarrow> LabelSelector list \<Rightarrow> error + bool"
  ProcessDashboard :: "GrafanaDashboard \<Rightarrow> string \<Rightarrow> (string \<times> string) \<times> (error + string option)"
  NewGrafanaClient :: "string \<Rightarrow> string \<Rightarrow> string \<Rightarrow> int \<Rightarrow> 'g GrafanaClient"
  RequeueDelay :: nat

subsection \<open>The controller\<close>

text \<open>\<^verbatim>\<open>isMatch\<close>: test if a given dashboard matches an array of label selectors.\<close>

definition isMatch :: "'g env \<Rightarrow> ControllerState \<Rightarrow> GrafanaDashboard \<Rightarrow> bool" where
  "isMatch env r item =
     (case DashboardSelectors r of
        None \<Rightarrow> False
      | Some selectors \<Rightarrow>
          (case MatchesSelectors env item selectors of
             Inl err \<Rightarrow> False
           | Inr match \<Rightarrow> match))"

text \<open>\<^verbatim>\<open>getClient\<close>: get an authenticated grafana API client.\<close>

definition getClient :: "'g env \<Rightarrow> ControllerState \<Rightarrow> error + 'g GrafanaClient" where
  "getClient env r =
     (if AdminUrl r = [] then Inl (OtherError ''cannot get grafana admin url'')
      else if AdminUsername r = [] then Inl (OtherError ''invalid credentials (username)'')
      else if AdminPassword r = [] then Inl (OtherError ''invalid credentials (password)'')
      else Inr (NewGrafanaClient env (AdminUrl r) (AdminUsername r) (AdminPassword r)
                  (ClientTimeout r)))"

text \<open>
  \<^verbatim>\<open>checkNamespaceLabels\<close>: check if the labels on a namespace match a given label
  selector. \<open>Inl err\<close> is the return of \<^verbatim>\<open>false, err\<close>.
\<close>

definition checkNamespaceLabels :: "'g env \<Rightarrow> ControllerState \<Rightarrow> GrafanaDashboard \<Rightarrow> error + bool" where
  "checkNamespaceLabels env r dashboard =
     (case client_GetNamespace env (d_Namespace dashboard) of
        Inl err \<Rightarrow> Inl err
      | Inr ns_Labels \<Rightarrow>
          (case LabelSelectorAsSelector env (DashboardNamespaceSelector r) of
             Inl err \<Rightarrow> Inl err
           | Inr selector \<Rightarrow> Inr (sel_Empty selector \<or> sel_Matches selector ns_Labels)))"

text \<open>\<^verbatim>\<open>r.recorder.Event(dashboard, eventtype, reason, message)\<close>.\<close>

definition dashboard_event :: "GrafanaDashboard \<Rightarrow> string \<Rightarrow> string \<Rightarrow> event" where
  "dashboard_event dashboard eventtype reason =
     \<lparr>ev_Namespace = d_Namespace dashboard, ev_Name = d_Name dashboard,
      ev_Type = eventtype, ev_Reason = reason\<rparr>"

definition Event :: "GrafanaDashboard \<Rightarrow> string \<Rightarrow> string \<Rightarrow> 'g world \<Rightarrow> 'g world" where
  "Event dashboard eventtype reason w =
     w\<lparr>events := events w @ [dashboard_event dashboard eventtype reason]\<rparr>"

text \<open>
  \<^verbatim>\<open>manageSuccess\<close>: record the event, add the dashboard to the known dashboards and
  update the list of plugins.
\<close>

definition manageSuccess :: "GrafanaDashboard \<Rightarrow> 'g world \<Rightarrow> 'g world" where
  "manageSuccess dashboard w =
     (let w1 = Event dashboard ''Normal'' ''Success'' w;
          w2 = w1\<lparr>config := AddDashboard dashboard (config w1)\<rparr>
      in w2\<lparr>config := SetPluginsFor dashboard (config w2)\<rparr>)"

text \<open>
  \<^verbatim>\<open>manageError\<close>: record the event. A conflict returns before the error is logged,
  any other error is logged; the log is no part of the world, so both branches leave the
  world with the event.
\<close>

definition manageError :: "GrafanaDashboard \<Rightarrow> error \<Rightarrow> 'g world \<Rightarrow> 'g world" where
  "manageError dashboard issue w =
     (let w1 = Event dashboard ''Warning'' ''ProcessingError'' w
      in if IsConflict issue then w1 else w1)"

text \<open>The closures \<^verbatim>\<open>inNamespace\<close> and \<^verbatim>\<open>findHash\<close> of \<^verbatim>\<open>reconcileDashboards\<close>.\<close>

fun inNamespace :: "GrafanaDashboard list \<Rightarrow> GrafanaDashboardRef \<Rightarrow> bool" where
  "inNamespace [] item = False"
| "inNamespace (d # ds) item =
     (if d_Name d = ref_Name item \<and> d_Namespace d = ref_Namespace item then True
      else inNamespace ds item)"

fun findHash :: "GrafanaDashboardRef list \<Rightarrow> GrafanaDashboard \<Rightarrow> string" where
  "findHash [] item = []"
| "findHash (d # ds) item =
     (if d_Name item = ref_Name d \<and> d_Namespace item = ref_Namespace d then ref_Hash d
      else findHash ds item)"

text \<open>Dashboards to delete: dashboards that are known but not found any longer in the namespace.\<close>

definition dashboardsToDelete ::
  "GrafanaDashboardRef list \<Rightarrow> GrafanaDashboard list \<Rightarrow> GrafanaDashboardRef list" where
  "dashboardsToDelete knownDashboards items =
     filter (\<lambda>dashboard. \<not> inNamespace items dashboard) knownDashboards"

text \<open>
  The body of the loop over \<^verbatim>\<open>namespaceDashboards.Items\<close>. The second component is
  the world after the iteration. The first names the way the iteration ended: one
  constructor for each \<^verbatim>\<open>continue\<close> of the body, in the order of the source, and
  \<open>Submitted\<close> for the end of the body.
\<close>

datatype outcome =
  SelectorMismatch
| ProcessingFailed error
| Unchanged
| NamespaceCheckFailed error
| NamespaceMismatch
| FolderFailed error
| SubmitFailed error
| Submitted

fun is_failure :: "outcome \<Rightarrow> bool" where
  "is_failure (ProcessingFailed _) = True"
| "is_failure (NamespaceCheckFailed _) = True"
| "is_failure (FolderFailed _) = True"
| "is_failure (SubmitFailed _) = True"
| "is_failure _ = False"

definition processDashboard ::
  "'g env \<Rightarrow> ControllerState \<Rightarrow> 'g GrafanaClient \<Rightarrow> GrafanaDashboardRef list \<Rightarrow>
   'g world \<Rightarrow> GrafanaDashboard \<Rightarrow> outcome \<times> 'g world" where
  "processDashboard env r grafanaClient knownDashboards w item =
     (if \<not> isMatch env r item then (SelectorMismatch, w)
      else
        let knownHash = findHash knownDashboards item;
            (status, processed) = ProcessDashboard env item knownHash;
            dashboard = item\<lparr>d_Hash := fst status, d_UID := snd status\<rparr>
        in case processed of
             Inl err \<Rightarrow> (ProcessingFailed err, manageError dashboard err w)
           | Inr None \<Rightarrow> (Unchanged, w\<lparr>config := SetPluginsFor dashboard (config w)\<rparr>)
           | Inr (Some payload) \<Rightarrow>
               (case (if DashboardNamespaceSelector r \<noteq> None
                      then checkNamespaceLabels env r dashboard else Inr True) of
                  Inl err \<Rightarrow> (NamespaceCheckFailed err, manageError dashboard err w)
                | Inr False \<Rightarrow> (NamespaceMismatch, w)
                | Inr True \<Rightarrow>
                    (let ((folder, ferr), g1) =
                           GetOrCreateNamespaceFolder grafanaClient (d_Namespace dashboard) (remote w);
                         w1 = w\<lparr>remote := g1,
                                calls := calls w @ [FolderCall (d_Namespace dashboard)]\<rparr>
                     in case ferr of
                          Some err \<Rightarrow> (FolderFailed err, manageError dashboard err w1)
                        | None \<Rightarrow>
                            (let folderId = (case folder_ID folder of None \<Rightarrow> 0 | Some i \<Rightarrow> i);
                                 ((_, cerr), g2) =
                                   CreateOrUpdateDashboard grafanaClient payload folderId (remote w1);
                                 w2 = w1\<lparr>remote := g2,
                                         calls := calls w1 @ [CreateOrUpdateCall payload folderId]\<rparr>
                             in case cerr of
                                  Some err \<Rightarrow> (SubmitFailed err, manageError dashboard err w2)
                                | None \<Rightarrow> (Submitted, manageSuccess dashboard w2)))))"

fun processDashboards ::
  "'g env \<Rightarrow> ControllerState \<Rightarrow> 'g GrafanaClient \<Rightarrow> GrafanaDashboardRef list \<Rightarrow>
   GrafanaDashboard list \<Rightarrow> 'g world \<Rightarrow> 'g world" where
  "processDashboards env r grafanaClient knownDashboards [] w = w"
| "processDashboards env r grafanaClient knownDashboards (item # items) w =
     processDashboards env r grafanaClient knownDashboards items
       (snd (processDashboard env r grafanaClient knownDashboards w item))"

text \<open>
  The loop over \<^verbatim>\<open>dashboardsToDelete\<close>. The arguments of \<^verbatim>\<open>log.Error\<close> dereference
  \<^verbatim>\<open>status.Status\<close> and \<^verbatim>\<open>status.Message\<close> when the call failed, and the argument of
  \<^verbatim>\<open>log.Info\<close> dereferences \<^verbatim>\<open>status.Message\<close> in every case; a nil pointer there
  ends the pass with a panic, after the call was made. Nothing leaves the loop early
  otherwise: the plugins and the entry are removed after the two log calls.
\<close>

fun deleteDashboards ::
  "'g GrafanaClient \<Rightarrow> GrafanaDashboardRef list \<Rightarrow> 'g world \<Rightarrow> (go_panic \<times> 'g world) + 'g world" where
  "deleteDashboards grafanaClient [] w = Inr w"
| "deleteDashboards grafanaClient (dashboard # rest) w =
     (let ((status, err), g1) = DeleteDashboardByUID grafanaClient (ref_UID dashboard) (remote w);
          w1 = w\<lparr>remote := g1, calls := calls w @ [DeleteCall (ref_UID dashboard)]\<rparr>
      in if err \<noteq> None \<and> (resp_Status status = None \<or> resp_Message status = None)
         then Inl (NilPointerDereference, w1)
         else if resp_Message status = None then Inl (NilPointerDereference, w1)
         else deleteDashboards grafanaClient rest
                (w1\<lparr>config := RemoveDashboard (ref_Namespace dashboard) (ref_Name dashboard)
                                 (RemovePluginsFor (ref_Namespace dashboard) (ref_Name dashboard)
                                    (config w1))\<rparr>))"

text \<open>
  \<^verbatim>\<open>reconcileDashboards\<close>: one pass over the namespace of the request. \<open>Inl\<close> is a panic,
  with the world it leaves behind; \<open>Inr\<close> is the return of a result and an error.
\<close>

definition reconcileDashboards ::
  "'g env \<Rightarrow> ControllerState \<Rightarrow> Request \<Rightarrow> 'g GrafanaClient \<Rightarrow> 'g world \<Rightarrow>
   (go_panic \<times> 'g world) + ('g world \<times> Result \<times> error option)" where
  "reconcileDashboards env r request grafanaClient w =
     (let knownDashboards = GetDashboards (req_Namespace request) (config w)
      in case client_List env (req_Namespace request) of
           Inl err \<Rightarrow> Inr (w, Result_zero, Some err)
         | Inr items \<Rightarrow>
             (let toDelete = dashboardsToDelete knownDashboards items;
                  w1 = processDashboards env r grafanaClient knownDashboards items w
              in case deleteDashboards grafanaClient toDelete w1 of
                   Inl p \<Rightarrow> Inl p
                 | Inr w2 \<Rightarrow>
                     Inr (w2\<lparr>config := AddConfigItem_DashboardsSynced (config w2)\<rparr>,
                          \<lparr>Requeue = False, RequeueAfter = 0\<rparr>, None)))"

text \<open>\<^verbatim>\<open>Reconcile\<close>: the entry point the controller runtime and the resync ticker call.\<close>

definition Reconcile ::
  "'g env \<Rightarrow> ControllerState \<Rightarrow> Request \<Rightarrow> 'g world \<Rightarrow>
   (go_panic \<times> 'g world) + ('g world \<times> Result \<times> error option)" where
  "Reconcile env r request w =
     (if GrafanaReady r = False then Inr (w, \<lparr>Requeue = False, RequeueAfter = 0\<rparr>, None)
      else
        (case getClient env r of
           Inl err \<Rightarrow> Inr (w, \<lparr>Requeue = False, RequeueAfter = RequeueDelay env\<rparr>, None)
         | Inr client \<Rightarrow>
             (if req_Name request = [] then reconcileDashboards env r request client w
              else if DashboardSelectors r = None
              then Inr (w, \<lparr>Requeue = False, RequeueAfter = RequeueDelay env\<rparr>, None)
              else
                (case client_GetDashboard env (req_Namespace request) (req_Name request) of
                   Inl err \<Rightarrow>
                     (if IsNotFound err then reconcileDashboards env r request client w
                      else Inr (w, Result_zero, Some err))
                 | Inr instance \<Rightarrow>
                     (if \<not> isMatch env r instance then Inr (w, Result_zero, None)
                      else reconcileDashboards env r request client w)))))"

subsection \<open>Observations used in the statements\<close>

text \<open>The dashboard as the loop body holds it once the pipeline has written its status.\<close>

definition rendered :: "'g env \<Rightarrow> GrafanaDashboardRef list \<Rightarrow> GrafanaDashboard \<Rightarrow> GrafanaDashboard" where
  "rendered env knownDashboards item =
     (let status = fst (ProcessDashboard env item (findHash knownDashboards item))
      in item\<lparr>d_Hash := fst status, d_UID := snd status\<rparr>)"

text \<open>The registry entries of an identity, and whether there is one.\<close>

definition entries_of :: "string \<Rightarrow> string \<Rightarrow> ControllerConfig \<Rightarrow> GrafanaDashboardRef list" where
  "entries_of ns name c = filter (same_ref ns name) (Dashboards c)"

definition registered :: "string \<Rightarrow> string \<Rightarrow> ControllerConfig \<Rightarrow> bool" where
  "registered ns name c = list_ex (same_ref ns name) (Dashboards c)"

text \<open>The calls and the events a run added to the world it started from.\<close>

definition new_calls :: "'g world \<Rightarrow> 'g world \<Rightarrow> grafana_call list" where
  "new_calls w w' = drop (length (calls w)) (calls w')"

definition new_events :: "'g world \<Rightarrow> 'g world \<Rightarrow> event list" where
  "new_events w w' = drop (length (events w)) (events w')"

fun is_DeleteCall :: "grafana_call \<Rightarrow> bool" where
  "is_DeleteCall (DeleteCall _) = True"
| "is_DeleteCall _ = False"

text \<open>
  The source comments that the controller requeues a request when the returned error is
  not nil or \<^verbatim>\<open>Result.Requeue\<close> is true; the runtime does so too after a positive
  \<^verbatim>\<open>RequeueAfter\<close>.
\<close>

definition requeues :: "Result \<times> error option \<Rightarrow> bool" where
  "requeues res = (snd res \<noteq> None \<or> Requeue (fst res) \<or> 0 < RequeueAfter (fst res))"

text \<open>
  Modelled from the spec: \<^verbatim>\<open>MatchesSelectors\<close>, a method of the dashboard resource, is not
  in the controller's file. The spec's \<^verbatim>\<open>matches(resource, selectors)\<close>: the resource is
  in scope iff its labels satisfy at least one configured selector. What it is for labels
  to satisfy one selector is the parameter \<open>satisfies\<close>.
\<close>

definition MatchesSelectors_spec ::
  "(labels \<Rightarrow> LabelSelector \<Rightarrow> bool) \<Rightarrow> GrafanaDashboard \<Rightarrow> LabelSelector list \<Rightarrow> error + bool" where
  "MatchesSelectors_spec satisfies item selectors = Inr (list_ex (satisfies (d_Labels item)) selectors)"

subsection \<open>A cluster, a Grafana instance and a configuration to run the controller on\<close>

definition ex_dashboard :: "string \<Rightarrow> string \<Rightarrow> string \<Rightarrow> GrafanaDashboard" where
  "ex_dashboard ns name json =
     \<lparr>d_Namespace = ns, d_Name = name, d_Labels = [''app'' \<mapsto> ''grafana''], d_Json = json,
      d_Plugins = [''piechart''], d_Hash = [], d_UID = []\<rparr>"

definition ex_ref :: "string \<Rightarrow> string \<Rightarrow> string \<Rightarrow> GrafanaDashboardRef" where
  "ex_ref ns name hash =
     \<lparr>ref_Name = name, ref_Namespace = ns, ref_UID = ''uid-'' @ name, ref_Hash = hash\<rparr>"

definition ex_response :: "string \<Rightarrow> GrafanaResponse" where
  "ex_response msg = \<lparr>resp_Status = Some ''status'', resp_Message = Some msg\<rparr>"

text \<open>
  A Grafana instance that counts the requests it served. It refuses the payload
  \<^verbatim>\<open>{bad}\<close>, fails to delete the uid \<^verbatim>\<open>uid-stuck\<close> with a filled status, and fails to
  delete the uid \<^verbatim>\<open>uid-nil\<close> with a status whose pointers are nil.
\<close>

definition ex_client :: "nat GrafanaClient" where
  "ex_client =
     \<lparr>GetOrCreateNamespaceFolder = (\<lambda>ns g. ((\<lparr>folder_ID = Some 7\<rparr>, None), Suc g)),
      CreateOrUpdateDashboard = (\<lambda>payload folderId g.
         if payload = ''{bad}'' then ((ex_response ''failed'', Some (OtherError ''500'')), Suc g)
         else ((ex_response ''success'', None), Suc g)),
      DeleteDashboardByUID = (\<lambda>uid g.
         if uid = ''uid-stuck'' then ((ex_response ''failed'', Some (OtherError ''500'')), Suc g)
         else if uid = ''uid-nil''
         then ((\<lparr>resp_Status = None, resp_Message = None\<rparr>, Some (OtherError ''timeout'')), Suc g)
         else ((ex_response ''deleted'', None), Suc g))\<rparr>"

text \<open>
  A cluster with the namespaces \<^verbatim>\<open>ns1\<close> (dashboards \<^verbatim>\<open>a\<close> and \<^verbatim>\<open>c\<close>), \<^verbatim>\<open>ns2\<close>
  (dashboards \<^verbatim>\<open>x\<close>, \<^verbatim>\<open>bad\<close> and \<^verbatim>\<open>y\<close>) and \<^verbatim>\<open>staging\<close> (dashboard \<^verbatim>\<open>d\<close>, namespace
  label \<^verbatim>\<open>env=staging\<close>). A selector with match expressions is refused; one without
  matches the labels that carry all its pairs. The pipeline takes the definition itself
  as its hash.
\<close>

definition ex_env :: "nat env" where
  "ex_env =
     \<lparr>client_List = (\<lambda>ns.
         if ns = ''ns1''
         then Inr [ex_dashboard ''ns1'' ''a'' ''{a}'', ex_dashboard ''ns1'' ''c'' ''{c}'']
         else if ns = ''ns2''
         then Inr [ex_dashboard ''ns2'' ''x'' ''{x}'', ex_dashboard ''ns2'' ''bad'' ''{bad}'',
                   ex_dashboard ''ns2'' ''y'' ''{y}'']
         else if ns = ''staging'' then Inr [ex_dashboard ''staging'' ''d'' ''{d}'']
         else Inr []),
      client_GetNamespace = (\<lambda>ns.
         if ns = ''gone'' then Inl (NotFound ''gone'')
         else if ns = ''staging'' then Inr [''env'' \<mapsto> ''staging'']
         else Inr [''env'' \<mapsto> ''prod'']),
      client_GetDashboard = (\<lambda>ns name. Inl (NotFound name)),
      LabelSelectorAsSelector = (\<lambda>ps.
         case ps of
           None \<Rightarrow> Inr \<lparr>sel_Empty = False, sel_Matches = (\<lambda>l. False)\<rparr>
         | Some s \<Rightarrow>
             if MatchExpressions s \<noteq> [] then Inl (OtherError ''not a valid selector operator'')
             else Inr \<lparr>sel_Empty = (MatchLabels s = []),
                      sel_Matches = (\<lambda>l. list_all (\<lambda>(k, v). l k = Some v) (MatchLabels s))\<rparr>),
      MatchesSelectors = (\<lambda>d selectors.
         if list_ex (\<lambda>s. MatchExpressions s \<noteq> []) selectors
         then Inl (OtherError ''not a valid selector operator'')
         else Inr (list_ex (\<lambda>s. list_all (\<lambda>(k, v). d_Labels d k = Some v) (MatchLabels s))
                     selectors)),
      ProcessDashboard = (\<lambda>d knownHash.
         ((d_Json d, ''uid-'' @ d_Name d),
          if d_Json d = ''{invalid'' then Inl (OtherError ''invalid json'')
          else if knownHash = d_Json d then Inr None else Inr (Some (d_Json d)))),
      NewGrafanaClient = (\<lambda>url username password timeout. ex_client),
      RequeueDelay = 10\<rparr>"

definition ex_selector :: "(string \<times> string) list \<Rightarrow> LabelSelector" where
  "ex_selector pairs = \<lparr>MatchLabels = pairs, MatchExpressions = []\<rparr>"

definition ex_state :: ControllerState where
  "ex_state =
     \<lparr>GrafanaReady = True,
      DashboardSelectors = Some [ex_selector [(''app'', ''grafana'')]],
      DashboardNamespaceSelector = None,
      AdminUrl = ''http://grafana'', AdminUsername = ''admin'', AdminPassword = ''secret'',
      ClientTimeout = 5\<rparr>"

definition ex_world :: "GrafanaDashboardRef list \<Rightarrow> nat world" where
  "ex_world known =
     \<lparr>remote = 0, calls = [],
      config = \<lparr>Dashboards = known, Plugins = Map.empty, DashboardsSynced = False\<rparr>,
      events = []\<rparr>"

definition ex_request :: "string \<Rightarrow> Request" where
  "ex_request ns = \<lparr>req_Namespace = ns, req_Name = []\<rparr>"

section \<open>Properties\<close>

lemmas ex_defs =
  ex_dashboard_def ex_ref_def ex_response_def ex_client_def ex_env_def ex_selector_def
  ex_state_def ex_world_def ex_request_def

lemmas controller_defs =
  Reconcile_def getClient_def reconcileDashboards_def processDashboard_def isMatch_def
  checkNamespaceLabels_def manageError_def manageSuccess_def Event_def dashboard_event_def
  dashboardsToDelete_def GetDashboards_def AddDashboard_def RemoveDashboard_def
  SetPluginsFor_def RemovePluginsFor_def same_ref_def AddConfigItem_DashboardsSynced_def
  Result_zero_def

subsection \<open>The loops of a pass\<close>

lemma findHash_entries:
  "findHash known item =
     (case filter (same_ref (d_Namespace item) (d_Name item)) known of [] \<Rightarrow> [] | e # _ \<Rightarrow> ref_Hash e)"
  by (induction known) (auto simp: same_ref_def)

lemma checkNamespaceLabels_status [simp]:
  "checkNamespaceLabels env r (item\<lparr>d_Hash := h, d_UID := u\<rparr>) = checkNamespaceLabels env r item"
  by (simp add: checkNamespaceLabels_def)

lemma rendered_ident [simp]:
  "d_Namespace (rendered env known item) = d_Namespace item"
  "d_Name (rendered env known item) = d_Name item"
  "d_Plugins (rendered env known item) = d_Plugins item"
  by (simp_all add: rendered_def Let_def)

lemma processDashboard_effect:
  assumes "processDashboard env r gc known w item = (out, w')"
  shows "\<exists>cs. calls w' = calls w @ cs \<and> (\<forall>c\<in>set cs. \<not> is_DeleteCall c)"
    and "events w' = events w @
           (if is_failure out then [dashboard_event item ''Warning'' ''ProcessingError'']
            else if out = Submitted then [dashboard_event item ''Normal'' ''Success''] else [])"
    and "config w' =
           (if out = Submitted
            then SetPluginsFor (rendered env known item) (AddDashboard (rendered env known item) (config w))
            else if out = Unchanged then SetPluginsFor (rendered env known item) (config w)
            else config w)"
  using assms
  by (auto simp: processDashboard_def manageError_def manageSuccess_def Event_def dashboard_event_def
        rendered_def Let_def
      split: if_splits prod.splits sum.splits option.splits bool.splits)

lemma processDashboards_append:
  "processDashboards env r gc known (xs @ ys) w =
     processDashboards env r gc known ys (processDashboards env r gc known xs w)"
  by (induction xs arbitrary: w) auto

lemma processDashboards_events:
  "\<exists>es. events (processDashboards env r gc known items w) = events w @ es"
proof (induction items arbitrary: w)
  case Nil
  then show ?case by simp
next
  case (Cons d ds)
  obtain out w' where s: "processDashboard env r gc known w d = (out, w')"
    by (cases "processDashboard env r gc known w d")
  from processDashboard_effect(2)[OF s] obtain e1 where "events w' = events w @ e1" by blast
  moreover from Cons.IH[of w'] obtain es where
    "events (processDashboards env r gc known ds w') = events w' @ es" by blast
  ultimately show ?case using s by simp
qed

lemma processDashboards_calls:
  "\<exists>cs. calls (processDashboards env r gc known items w) = calls w @ cs \<and> (\<forall>c\<in>set cs. \<not> is_DeleteCall c)"
proof (induction items arbitrary: w)
  case Nil
  then show ?case by simp
next
  case (Cons d ds)
  obtain out w' where s: "processDashboard env r gc known w d = (out, w')"
    by (cases "processDashboard env r gc known w d")
  from processDashboard_effect(1)[OF s] obtain c1 where
    c1: "calls w' = calls w @ c1" "\<forall>c\<in>set c1. \<not> is_DeleteCall c" by blast
  from Cons.IH[of w'] obtain cs where
    cs: "calls (processDashboards env r gc known ds w') = calls w' @ cs" "\<forall>c\<in>set cs. \<not> is_DeleteCall c"
    by blast
  have "calls (processDashboards env r gc known (d # ds) w) = calls w @ (c1 @ cs)"
    using s c1 cs by simp
  moreover have "\<forall>c\<in>set (c1 @ cs). \<not> is_DeleteCall c" using c1 cs by auto
  ultimately show ?case by blast
qed

lemma deleteDashboards_effect:
  assumes "deleteDashboards gc del w = Inr w'"
  shows "calls w' = calls w @ map (\<lambda>e. DeleteCall (ref_UID e)) del"
    and "events w' = events w"
    and "Dashboards (config w') =
           filter (\<lambda>x. \<not> list_ex (\<lambda>e. same_ref (ref_Namespace e) (ref_Name e) x) del) (Dashboards (config w))"
    and "Plugins (config w') =
           (\<lambda>k. if k \<in> (\<lambda>e. (ref_Namespace e, ref_Name e)) ` set del then None else Plugins (config w) k)"
    and "DashboardsSynced (config w') = DashboardsSynced (config w)"
  using assms
proof (induction del arbitrary: w)
  case Nil
  {
    case 1 then show ?case by simp
  next
    case 2 then show ?case by simp
  next
    case 3 then show ?case by simp
  next
    case 4 then show ?case by simp
  next
    case 5 then show ?case by simp
  }
next
  case (Cons e del)
  {
    case 1 then show ?case
      by (auto simp: Let_def split: prod.splits if_splits dest!: Cons.IH(1))
  next
    case 2 then show ?case
      by (auto simp: Let_def split: prod.splits if_splits dest!: Cons.IH(2))
  next
    case 3 then show ?case
      by (auto simp: Let_def RemoveDashboard_def RemovePluginsFor_def split: prod.splits if_splits dest!: Cons.IH(3)
          intro!: filter_cong)
  next
    case 4 then show ?case
      by (auto simp: Let_def RemoveDashboard_def RemovePluginsFor_def fun_eq_iff split: prod.splits if_splits dest!: Cons.IH(4))
  next
    case 5 then show ?case
      by (auto simp: Let_def RemoveDashboard_def RemovePluginsFor_def split: prod.splits if_splits dest!: Cons.IH(5))
  }
qed

subsection \<open>The selectors\<close>

text \<open>
  C7. With \<^verbatim>\<open>MatchesSelectors\<close> as the spec describes it, a dashboard is eligible
  (\<^verbatim>\<open>isMatch\<close> returns true) iff the selector set is present and the labels of the
  dashboard satisfy at least one selector of it; with an absent (nil) or an empty selector
  set no dashboard is eligible.
\<close>

theorem isMatch_iff_some_selector_matches:
  "(isMatch (env\<lparr>MatchesSelectors := MatchesSelectors_spec satisfies\<rparr>) r item \<longleftrightarrow>
      (\<exists>S. DashboardSelectors r = Some S \<and> (\<exists>s\<in>set S. satisfies (d_Labels item) s))) \<and>
   (DashboardSelectors r = None \<or> DashboardSelectors r = Some [] \<longrightarrow>
      \<not> isMatch (env\<lparr>MatchesSelectors := MatchesSelectors_spec satisfies\<rparr>) r item)"
  by (auto simp: isMatch_def MatchesSelectors_spec_def list_ex_iff split: option.splits)

theorem isMatch_iff_some_selector_matches_witness:
  "isMatch (ex_env\<lparr>MatchesSelectors := MatchesSelectors_spec (\<lambda>l s. list_all (\<lambda>(k, v). l k = Some v) (MatchLabels s))\<rparr>)
     ex_state (ex_dashboard ''ns1'' ''a'' ''{a}'') \<and>
   \<not> isMatch (ex_env\<lparr>MatchesSelectors := MatchesSelectors_spec (\<lambda>l s. list_all (\<lambda>(k, v). l k = Some v) (MatchLabels s))\<rparr>)
     (ex_state\<lparr>DashboardSelectors := Some []\<rparr>) (ex_dashboard ''ns1'' ''a'' ''{a}'') \<and>
   \<not> isMatch (ex_env\<lparr>MatchesSelectors := MatchesSelectors_spec (\<lambda>l s. list_all (\<lambda>(k, v). l k = Some v) (MatchLabels s))\<rparr>)
     (ex_state\<lparr>DashboardSelectors := None\<rparr>) (ex_dashboard ''ns1'' ''a'' ''{a}'')"
proof -
  let ?sat = "\<lambda>(l::labels) s. list_all (\<lambda>(k, v). l k = Some v) (MatchLabels s)"
  let ?d = "ex_dashboard ''ns1'' ''a'' ''{a}''"
  have sel: "DashboardSelectors ex_state = Some [ex_selector [(''app'', ''grafana'')]]"
    by (simp add: ex_state_def)
  have sat: "?sat (d_Labels ?d) (ex_selector [(''app'', ''grafana'')])"
    by (simp add: ex_dashboard_def ex_selector_def)
  have "\<exists>S. DashboardSelectors ex_state = Some S \<and> (\<exists>s\<in>set S. ?sat (d_Labels ?d) s)"
    using sel sat by simp
  then have yes: "isMatch (ex_env\<lparr>MatchesSelectors := MatchesSelectors_spec ?sat\<rparr>) ex_state ?d"
    using isMatch_iff_some_selector_matches
            [where env = ex_env and satisfies = ?sat and r = ex_state and item = ?d]
    by blast
  have no1: "\<not> isMatch (ex_env\<lparr>MatchesSelectors := MatchesSelectors_spec ?sat\<rparr>)
               (ex_state\<lparr>DashboardSelectors := Some []\<rparr>) ?d"
    using isMatch_iff_some_selector_matches
            [where env = ex_env and satisfies = ?sat and item = ?d
               and r = "ex_state\<lparr>DashboardSelectors := Some []\<rparr>"]
    by simp
  have no2: "\<not> isMatch (ex_env\<lparr>MatchesSelectors := MatchesSelectors_spec ?sat\<rparr>)
               (ex_state\<lparr>DashboardSelectors := None\<rparr>) ?d"
    using isMatch_iff_some_selector_matches
            [where env = ex_env and satisfies = ?sat and item = ?d
               and r = "ex_state\<lparr>DashboardSelectors := None\<rparr>"]
    by simp
  from yes no1 no2 show ?thesis by simp
qed

text \<open>
  C10. If evaluating the selectors against the labels of a dashboard returns an error,
  \<^verbatim>\<open>isMatch\<close> returns false and the pass skips the dashboard as out of scope: the
  iteration leaves the world as it is, so no event is recorded for the dashboard.
\<close>

theorem selector_error_is_silent_mismatch:
  assumes "DashboardSelectors r = Some selectors"
      and "MatchesSelectors env item selectors = Inl err"
  shows "\<not> isMatch env r item \<and>
         processDashboard env r grafanaClient knownDashboards w item = (SelectorMismatch, w)"
  using assms by (simp add: isMatch_def processDashboard_def)

theorem selector_error_is_silent_mismatch_witness:
  "MatchesSelectors ex_env (ex_dashboard ''ns1'' ''a'' ''{a}'')
     [\<lparr>MatchLabels = [], MatchExpressions = [(''app'', ''Bogus'', [])]\<rparr>] =
     Inl (OtherError ''not a valid selector operator'') \<and>
   \<not> isMatch ex_env
       (ex_state\<lparr>DashboardSelectors := Some [\<lparr>MatchLabels = [], MatchExpressions = [(''app'', ''Bogus'', [])]\<rparr>]\<rparr>)
       (ex_dashboard ''ns1'' ''a'' ''{a}'') \<and>
   processDashboard ex_env
       (ex_state\<lparr>DashboardSelectors := Some [\<lparr>MatchLabels = [], MatchExpressions = [(''app'', ''Bogus'', [])]\<rparr>]\<rparr>)
       ex_client [] (ex_world []) (ex_dashboard ''ns1'' ''a'' ''{a}'') =
     (SelectorMismatch, ex_world [])"
proof -
  let ?S = "[\<lparr>MatchLabels = [], MatchExpressions = [(''app'', ''Bogus'', [])]\<rparr>]"
  let ?d = "ex_dashboard ''ns1'' ''a'' ''{a}''"
  have h1: "DashboardSelectors (ex_state\<lparr>DashboardSelectors := Some ?S\<rparr>) = Some ?S"
    by simp
  have h2: "MatchesSelectors ex_env ?d ?S = Inl (OtherError ''not a valid selector operator'')"
    by (simp add: ex_env_def)
  from selector_error_is_silent_mismatch [OF h1 h2, of ex_client "[]" "ex_world []"] h2
  show ?thesis by simp
qed

text \<open>
  C8. \<^verbatim>\<open>checkNamespaceLabels\<close> returns the error when the namespace object cannot be
  resolved, and the error of the selector when the selector is none; otherwise it returns
  true when the namespace selector is empty, and else whether the labels of the
  namespace satisfy the selector. So it returns true iff the namespace is resolved and
  the selector is empty or satisfied by the labels of the namespace.
\<close>

theorem checkNamespaceLabels_result:
  "(client_GetNamespace env (d_Namespace dashboard) = Inl err \<longrightarrow>
      checkNamespaceLabels env r dashboard = Inl err) \<and>
   (client_GetNamespace env (d_Namespace dashboard) = Inr ns_Labels \<and>
    LabelSelectorAsSelector env (DashboardNamespaceSelector r) = Inl err \<longrightarrow>
      checkNamespaceLabels env r dashboard = Inl err) \<and>
   (client_GetNamespace env (d_Namespace dashboard) = Inr ns_Labels \<and>
    LabelSelectorAsSelector env (DashboardNamespaceSelector r) = Inr selector \<longrightarrow>
      (sel_Empty selector \<longrightarrow> checkNamespaceLabels env r dashboard = Inr True) \<and>
      (\<not> sel_Empty selector \<longrightarrow>
         checkNamespaceLabels env r dashboard = Inr (sel_Matches selector ns_Labels))) \<and>
   (checkNamespaceLabels env r dashboard = Inr True \<longleftrightarrow>
      (\<exists>l s. client_GetNamespace env (d_Namespace dashboard) = Inr l \<and>
             LabelSelectorAsSelector env (DashboardNamespaceSelector r) = Inr s \<and>
             (sel_Empty s \<or> sel_Matches s l)))"
  by (auto simp: checkNamespaceLabels_def split: sum.splits)

theorem checkNamespaceLabels_result_witness:
  "checkNamespaceLabels ex_env ex_state (ex_dashboard ''gone'' ''d'' ''{d}'') = Inl (NotFound ''gone'') \<and>
   checkNamespaceLabels ex_env (ex_state\<lparr>DashboardNamespaceSelector := Some (ex_selector [])\<rparr>)
     (ex_dashboard ''staging'' ''d'' ''{d}'') = Inr True \<and>
   checkNamespaceLabels ex_env
     (ex_state\<lparr>DashboardNamespaceSelector := Some (ex_selector [(''env'', ''prod'')])\<rparr>)
     (ex_dashboard ''staging'' ''d'' ''{d}'') = Inr False \<and>
   checkNamespaceLabels ex_env
     (ex_state\<lparr>DashboardNamespaceSelector := Some (ex_selector [(''env'', ''prod'')])\<rparr>)
     (ex_dashboard ''ns1'' ''a'' ''{a}'') = Inr True"
proof -
  let ?prod = "ex_state\<lparr>DashboardNamespaceSelector := Some (ex_selector [(''env'', ''prod'')])\<rparr>"
  let ?any = "ex_state\<lparr>DashboardNamespaceSelector := Some (ex_selector [])\<rparr>"
  let ?sel = "\<lambda>pairs. \<lparr>sel_Empty = (pairs = []),
                        sel_Matches = (\<lambda>l::labels. list_all (\<lambda>(k, v). l k = Some v) pairs)\<rparr>"
  have gone: "client_GetNamespace ex_env (d_Namespace (ex_dashboard ''gone'' ''d'' ''{d}'')) =
                Inl (NotFound ''gone'')"
    by (simp add: ex_env_def ex_dashboard_def)
  have staging: "client_GetNamespace ex_env (d_Namespace (ex_dashboard ''staging'' ''d'' ''{d}'')) =
                   Inr [''env'' \<mapsto> ''staging'']"
    by (simp add: ex_env_def ex_dashboard_def)
  have ns1: "client_GetNamespace ex_env (d_Namespace (ex_dashboard ''ns1'' ''a'' ''{a}'')) =
               Inr [''env'' \<mapsto> ''prod'']"
    by (simp add: ex_env_def ex_dashboard_def)
  have any: "LabelSelectorAsSelector ex_env (DashboardNamespaceSelector ?any) = Inr (?sel [])"
    by (simp add: ex_env_def ex_selector_def)
  have prod: "LabelSelectorAsSelector ex_env (DashboardNamespaceSelector ?prod) =
                Inr (?sel [(''env'', ''prod'')])"
    by (simp add: ex_env_def ex_selector_def)
  have 1: "checkNamespaceLabels ex_env ex_state (ex_dashboard ''gone'' ''d'' ''{d}'') =
             Inl (NotFound ''gone'')"
    using checkNamespaceLabels_result
            [of ex_env "ex_dashboard ''gone'' ''d'' ''{d}''" "NotFound ''gone''" ex_state]
          gone
    by blast
  have 2: "checkNamespaceLabels ex_env ?any (ex_dashboard ''staging'' ''d'' ''{d}'') = Inr True"
    using checkNamespaceLabels_result
            [of ex_env "ex_dashboard ''staging'' ''d'' ''{d}''" _ ?any "[''env'' \<mapsto> ''staging'']"
                "?sel []"]
          staging any
    by simp
  have 3: "checkNamespaceLabels ex_env ?prod (ex_dashboard ''staging'' ''d'' ''{d}'') = Inr False"
    using checkNamespaceLabels_result
            [of ex_env "ex_dashboard ''staging'' ''d'' ''{d}''" _ ?prod "[''env'' \<mapsto> ''staging'']"
                "?sel [(''env'', ''prod'')]"]
          staging prod
    by simp
  have 4: "checkNamespaceLabels ex_env ?prod (ex_dashboard ''ns1'' ''a'' ''{a}'') = Inr True"
    using checkNamespaceLabels_result
            [of ex_env "ex_dashboard ''ns1'' ''a'' ''{a}''" _ ?prod "[''env'' \<mapsto> ''prod'']"
                "?sel [(''env'', ''prod'')]"]
          ns1 prod
    by simp
  from 1 2 3 4 show ?thesis by simp
qed

subsection \<open>The readiness gate\<close>

text \<open>
  C2, as amended. If the readiness flag of the controller state is false, \<^verbatim>\<open>Reconcile\<close>
  returns \<^verbatim>\<open>reconcile.Result{Requeue: false}\<close> and a nil error, a result on which the
  request is not requeued, and it leaves the world as it is: no call is made to Grafana.
\<close>

theorem not_ready_no_requeue:
  "\<not> GrafanaReady r \<Longrightarrow>
     Reconcile env r request w = Inr (w, \<lparr>Requeue = False, RequeueAfter = 0\<rparr>, None) \<and>
     \<not> requeues (\<lparr>Requeue = False, RequeueAfter = 0\<rparr>, None)"
  by (simp add: Reconcile_def requeues_def)

theorem not_ready_no_requeue_witness:
  "\<not> GrafanaReady (ex_state\<lparr>GrafanaReady := False\<rparr>) \<and>
   Reconcile ex_env (ex_state\<lparr>GrafanaReady := False\<rparr>) (ex_request ''ns1'') (ex_world []) =
     Inr (ex_world [], \<lparr>Requeue = False, RequeueAfter = 0\<rparr>, None)"
proof -
  have h: "\<not> GrafanaReady (ex_state\<lparr>GrafanaReady := False\<rparr>)" by simp
  from not_ready_no_requeue [OF h, of ex_env "ex_request ''ns1''" "ex_world []"] h
  show ?thesis by simp
qed

text \<open>
  The claim C2 as the spec states it, that the result is a delayed requeue, fails: on a
  state that is not ready the result does not requeue the request, while a state with no
  admin url gets the delay.
\<close>

theorem not_ready_delayed_requeue_counterexample:
  "\<not> GrafanaReady (ex_state\<lparr>GrafanaReady := False\<rparr>) \<and>
   \<not> requeues (snd (projr (Reconcile ex_env (ex_state\<lparr>GrafanaReady := False\<rparr>)
                              (ex_request ''ns1'') (ex_world [])))) \<and>
   requeues (snd (projr (Reconcile ex_env (ex_state\<lparr>AdminUrl := []\<rparr>)
                            (ex_request ''ns1'') (ex_world []))))"
  by (simp add: Reconcile_def getClient_def requeues_def ex_state_def ex_env_def)

subsection \<open>The delete set\<close>

lemma inNamespace_iff:
  "inNamespace items e \<longleftrightarrow>
     (\<exists>d\<in>set items. d_Name d = ref_Name e \<and> d_Namespace d = ref_Namespace e)"
  by (induction items) auto

text \<open>
  C6. The delete set of a pass over a namespace is exactly the set of the registry
  entries of that namespace whose (namespace, name) is the identity of no dashboard of
  the listing.
\<close>

theorem delete_set_exact:
  "set (dashboardsToDelete knownDashboards items) =
     {e \<in> set knownDashboards.
        (ref_Namespace e, ref_Name e) \<notin> (\<lambda>d. (d_Namespace d, d_Name d)) ` set items} \<and>
   set (dashboardsToDelete (GetDashboards ns c) items) =
     {e \<in> set (Dashboards c). ref_Namespace e = ns \<and>
        (ref_Namespace e, ref_Name e) \<notin> (\<lambda>d. (d_Namespace d, d_Name d)) ` set items}"
  by (auto simp: dashboardsToDelete_def GetDashboards_def inNamespace_iff image_iff)

subsection \<open>Deleting\<close>

lemma deleteDashboards_completes:
  assumes "\<And>uid g st err g'. DeleteDashboardByUID gc uid g = ((st, err), g') \<Longrightarrow>
             resp_Message st \<noteq> None \<and> (err \<noteq> None \<longrightarrow> resp_Status st \<noteq> None)"
  shows "\<exists>w'. deleteDashboards gc del w = Inr w'"
proof (induction del arbitrary: w)
  case Nil
  then show ?case by simp
next
  case (Cons e del)
  obtain st err g' where c: "DeleteDashboardByUID gc (ref_UID e) (remote w) = ((st, err), g')"
    by (metis prod.exhaust)
  from assms[OF c] Cons.IH show ?case
    by (auto simp: c Let_def)
qed

text \<open>
  A pass returns whenever the statuses of the delete calls are filled: a message in every
  status, and a status text in the status of a failed call.
\<close>

lemma reconcileDashboards_returns:
  assumes "\<And>uid g st err g'. DeleteDashboardByUID gc uid g = ((st, err), g') \<Longrightarrow>
             resp_Message st \<noteq> None \<and> (err \<noteq> None \<longrightarrow> resp_Status st \<noteq> None)"
  shows "\<exists>w' res. reconcileDashboards env r request gc w = Inr (w', res)"
proof (cases "client_List env (req_Namespace request)")
  case (Inl err)
  then show ?thesis by (simp add: reconcileDashboards_def)
next
  case (Inr items)
  let ?known = "GetDashboards (req_Namespace request) (config w)"
  have "\<exists>w2. deleteDashboards gc (dashboardsToDelete ?known items)
              (processDashboards env r gc ?known items w) = Inr w2"
    by (rule deleteDashboards_completes) (rule assms)
  then obtain w2 where
    "deleteDashboards gc (dashboardsToDelete ?known items)
       (processDashboards env r gc ?known items w) = Inr w2"
    by blast
  with Inr show ?thesis by (simp add: reconcileDashboards_def Let_def)
qed

lemma reconcileDashboards_Inr:
  assumes "client_List env (req_Namespace request) = Inr items"
      and "reconcileDashboards env r request gc w = Inr (w', res)"
  obtains w2 where
    "deleteDashboards gc (dashboardsToDelete (GetDashboards (req_Namespace request) (config w)) items)
       (processDashboards env r gc (GetDashboards (req_Namespace request) (config w)) items w) = Inr w2"
    "w' = w2\<lparr>config := AddConfigItem_DashboardsSynced (config w2)\<rparr>"
    "res = (\<lparr>Requeue = False, RequeueAfter = 0\<rparr>, None)"
  using assms
  by (auto simp: reconcileDashboards_def Let_def split: sum.splits)

text \<open>
  C1, as amended. In a pass that returns, exactly one delete call is issued for every
  entry of the delete set, in the order of the set, and no other delete call; and
  whether its delete call succeeded or failed, the registry has no entry of that identity
  and no plugins recorded for it when the pass returns.
\<close>

theorem delete_set_is_deleted_and_forgotten:
  assumes "client_List env (req_Namespace request) = Inr items"
      and "reconcileDashboards env r request gc w = Inr (w', res)"
  shows "filter is_DeleteCall (new_calls w w') =
           map (\<lambda>e. DeleteCall (ref_UID e))
             (dashboardsToDelete (GetDashboards (req_Namespace request) (config w)) items) \<and>
         (\<forall>e\<in>set (dashboardsToDelete (GetDashboards (req_Namespace request) (config w)) items).
            \<not> registered (ref_Namespace e) (ref_Name e) (config w') \<and>
            Plugins (config w') (ref_Namespace e, ref_Name e) = None)"
proof -
  let ?known = "GetDashboards (req_Namespace request) (config w)"
  let ?del = "dashboardsToDelete ?known items"
  let ?w1 = "processDashboards env r gc ?known items w"
  from reconcileDashboards_Inr[OF assms] obtain w2 where
    d: "deleteDashboards gc ?del ?w1 = Inr w2"
    and w': "w' = w2\<lparr>config := AddConfigItem_DashboardsSynced (config w2)\<rparr>"
    by blast
  from processDashboards_calls[of env r gc ?known items w] obtain cs where
    cs: "calls ?w1 = calls w @ cs" "\<forall>c\<in>set cs. \<not> is_DeleteCall c" by blast
  have calls: "calls w' = calls w @ cs @ map (\<lambda>e. DeleteCall (ref_UID e)) ?del"
    using deleteDashboards_effect(1)[OF d] cs w' by simp
  have "filter is_DeleteCall cs = []" using cs(2) by (simp add: filter_empty_conv)
  moreover have "filter is_DeleteCall (map (\<lambda>e. DeleteCall (ref_UID e)) ?del) =
                   map (\<lambda>e. DeleteCall (ref_UID e)) ?del"
    by (induction ?del) auto
  ultimately have 1: "filter is_DeleteCall (new_calls w w') = map (\<lambda>e. DeleteCall (ref_UID e)) ?del"
    using calls by (simp add: new_calls_def)
  have 2: "\<not> registered (ref_Namespace e) (ref_Name e) (config w') \<and>
           Plugins (config w') (ref_Namespace e, ref_Name e) = None" if "e \<in> set ?del" for e
  proof -
    have "Dashboards (config w') = Dashboards (config w2)" "Plugins (config w') = Plugins (config w2)"
      using w' by (simp_all add: AddConfigItem_DashboardsSynced_def)
    then show ?thesis
      using that deleteDashboards_effect(3,4)[OF d]
      by (auto simp: registered_def list_ex_iff same_ref_def)
  qed
  from 1 2 show ?thesis by blast
qed

text \<open>
  The example of the spec: the registry knows \<^verbatim>\<open>a\<close> and \<^verbatim>\<open>b\<close> of \<^verbatim>\<open>ns1\<close>, the listing
  has \<^verbatim>\<open>a\<close>, unchanged, and \<^verbatim>\<open>c\<close>, new. One delete call, for \<^verbatim>\<open>b\<close>.
\<close>

theorem delete_set_is_deleted_and_forgotten_witness:
  "reconcileDashboards ex_env ex_state (ex_request ''ns1'') ex_client
     (ex_world [ex_ref ''ns1'' ''a'' ''{a}'', ex_ref ''ns1'' ''b'' ''{b}'']) =
     Inr (\<lparr>remote = 3,
           calls = [FolderCall ''ns1'', CreateOrUpdateCall ''{c}'' 7, DeleteCall ''uid-b''],
           config = \<lparr>Dashboards = [ex_ref ''ns1'' ''a'' ''{a}'', ex_ref ''ns1'' ''c'' ''{c}''],
                     Plugins = [(''ns1'', ''a'') \<mapsto> [''piechart''], (''ns1'', ''c'') \<mapsto> [''piechart'']],
                     DashboardsSynced = True\<rparr>,
           events = [dashboard_event (ex_dashboard ''ns1'' ''c'' ''{c}'') ''Normal'' ''Success'']\<rparr>,
          \<lparr>Requeue = False, RequeueAfter = 0\<rparr>, None) \<and>
   filter is_DeleteCall [FolderCall ''ns1'', CreateOrUpdateCall ''{c}'' 7, DeleteCall ''uid-b''] =
     [DeleteCall ''uid-b''] \<and>
   \<not> registered ''ns1'' ''b''
       \<lparr>Dashboards = [ex_ref ''ns1'' ''a'' ''{a}'', ex_ref ''ns1'' ''c'' ''{c}''],
        Plugins = [(''ns1'', ''a'') \<mapsto> [''piechart''], (''ns1'', ''c'') \<mapsto> [''piechart'']],
        DashboardsSynced = True\<rparr>"
proof -
  let ?w = "ex_world [ex_ref ''ns1'' ''a'' ''{a}'', ex_ref ''ns1'' ''b'' ''{b}'']"
  let ?c' = "\<lparr>Dashboards = [ex_ref ''ns1'' ''a'' ''{a}'', ex_ref ''ns1'' ''c'' ''{c}''],
              Plugins = [(''ns1'', ''a'') \<mapsto> [''piechart''], (''ns1'', ''c'') \<mapsto> [''piechart'']],
              DashboardsSynced = True\<rparr>"
  let ?w' = "\<lparr>remote = 3,
              calls = [FolderCall ''ns1'', CreateOrUpdateCall ''{c}'' 7, DeleteCall ''uid-b''],
              config = ?c',
              events = [dashboard_event (ex_dashboard ''ns1'' ''c'' ''{c}'') ''Normal'' ''Success'']\<rparr>"
  have l: "client_List ex_env (req_Namespace (ex_request ''ns1'')) =
             Inr [ex_dashboard ''ns1'' ''a'' ''{a}'', ex_dashboard ''ns1'' ''c'' ''{c}'']"
    by (simp add: ex_env_def ex_request_def)
  have run: "reconcileDashboards ex_env ex_state (ex_request ''ns1'') ex_client ?w =
               Inr (?w', \<lparr>Requeue = False, RequeueAfter = 0\<rparr>, None)"
    by (simp add: ex_defs controller_defs)
  have del: "dashboardsToDelete (GetDashboards (req_Namespace (ex_request ''ns1'')) (config ?w))
               [ex_dashboard ''ns1'' ''a'' ''{a}'', ex_dashboard ''ns1'' ''c'' ''{c}''] =
             [ex_ref ''ns1'' ''b'' ''{b}'']"
    by (simp add: ex_defs dashboardsToDelete_def GetDashboards_def)
  from delete_set_is_deleted_and_forgotten [OF l run] del
  have "filter is_DeleteCall (new_calls ?w ?w') = [DeleteCall (ref_UID (ex_ref ''ns1'' ''b'' ''{b}''))] \<and>
        \<not> registered (ref_Namespace (ex_ref ''ns1'' ''b'' ''{b}'')) (ref_Name (ex_ref ''ns1'' ''b'' ''{b}'')) ?c'"
    by simp
  then show ?thesis using run
    by (simp add: new_calls_def ex_world_def ex_ref_def)
qed

text \<open>
  The claim C1 as the spec states it, that the entry persists when the delete call
  fails, fails: Grafana refuses to delete \<^verbatim>\<open>uid-stuck\<close>, and the pass returns with the
  entry of \<^verbatim>\<open>stuck\<close> removed from the registry, so that no later pass deletes it.
\<close>

theorem failed_delete_keeps_entry_counterexample:
  "snd (fst (DeleteDashboardByUID ex_client ''uid-stuck'' 0)) = Some (OtherError ''500'') \<and>
   registered ''ns4'' ''stuck'' (config (ex_world [ex_ref ''ns4'' ''stuck'' ''{s}''])) \<and>
   reconcileDashboards ex_env ex_state (ex_request ''ns4'') ex_client
     (ex_world [ex_ref ''ns4'' ''stuck'' ''{s}'']) =
     Inr (\<lparr>remote = 1, calls = [DeleteCall ''uid-stuck''],
           config = \<lparr>Dashboards = [], Plugins = Map.empty, DashboardsSynced = True\<rparr>,
           events = []\<rparr>,
          \<lparr>Requeue = False, RequeueAfter = 0\<rparr>, None)"
  by (simp add: ex_defs controller_defs registered_def)

text \<open>
  C3. The claim is that a failing delete call never crashes the pass. The loop
  dereferences \<^verbatim>\<open>status.Status\<close> and \<^verbatim>\<open>status.Message\<close> in the failure branch with no
  check for nil: when Grafana fails to delete \<^verbatim>\<open>uid-nil\<close> and the status it returns has
  nil pointers, the pass panics after the call, with the entry still in the registry and
  the dashboards not marked as synced.
\<close>

theorem failed_delete_with_nil_status_panics:
  "fst (DeleteDashboardByUID ex_client ''uid-nil'' 0) =
     (\<lparr>resp_Status = None, resp_Message = None\<rparr>, Some (OtherError ''timeout'')) \<and>
   reconcileDashboards ex_env ex_state (ex_request ''ns5'') ex_client
     (ex_world [ex_ref ''ns5'' ''nil'' ''{s}'']) =
     Inl (NilPointerDereference,
          \<lparr>remote = 1, calls = [DeleteCall ''uid-nil''],
           config = \<lparr>Dashboards = [ex_ref ''ns5'' ''nil'' ''{s}''], Plugins = Map.empty,
                     DashboardsSynced = False\<rparr>,
           events = []\<rparr>)"
  by (simp add: ex_defs controller_defs)

subsection \<open>The namespace selector\<close>

text \<open>
  C9, as amended. When the namespace selector is configured and the namespace of a
  dashboard of the listing does not match it, the iteration makes no call to Grafana and
  leaves the dashboard entries of the registry as they are, and the dashboard is not in
  the delete set. When the dashboard matches the selectors and its rendering returned a
  payload, the iteration ends at the namespace check and leaves the whole world as it
  is.
\<close>

theorem namespace_mismatch_is_skipped:
  assumes "DashboardNamespaceSelector r \<noteq> None"
      and "checkNamespaceLabels env r item = Inr False"
      and "processDashboard env r gc known w item = (out, w')"
  shows "calls w' = calls w \<and> remote w' = remote w \<and>
         Dashboards (config w') = Dashboards (config w) \<and>
         (out = NamespaceMismatch \<longrightarrow> w' = w) \<and>
         (isMatch env r item \<and>
          snd (ProcessDashboard env item (findHash known item)) = Inr (Some payload) \<longrightarrow>
            out = NamespaceMismatch) \<and>
         (item \<in> set items \<longrightarrow>
            \<not> list_ex (same_ref (d_Namespace item) (d_Name item)) (dashboardsToDelete known items))"
  using assms
  by (auto simp: processDashboard_def manageError_def Event_def Let_def SetPluginsFor_def
        dashboardsToDelete_def list_ex_iff same_ref_def inNamespace_iff
      split: if_splits prod.splits sum.splits option.splits bool.splits)

text \<open>
  The example of the spec: the namespace selector requires \<^verbatim>\<open>env=prod\<close>, the dashboard
  \<^verbatim>\<open>d\<close> lives in \<^verbatim>\<open>staging\<close>, labelled \<^verbatim>\<open>env=staging\<close>, and matches the selectors of
  the dashboards.
\<close>

theorem namespace_mismatch_is_skipped_witness:
  "DashboardNamespaceSelector
     (ex_state\<lparr>DashboardNamespaceSelector := Some (ex_selector [(''env'', ''prod'')])\<rparr>) \<noteq> None \<and>
   checkNamespaceLabels ex_env
     (ex_state\<lparr>DashboardNamespaceSelector := Some (ex_selector [(''env'', ''prod'')])\<rparr>)
     (ex_dashboard ''staging'' ''d'' ''{d}'') = Inr False \<and>
   isMatch ex_env
     (ex_state\<lparr>DashboardNamespaceSelector := Some (ex_selector [(''env'', ''prod'')])\<rparr>)
     (ex_dashboard ''staging'' ''d'' ''{d}'') \<and>
   processDashboard ex_env
     (ex_state\<lparr>DashboardNamespaceSelector := Some (ex_selector [(''env'', ''prod'')])\<rparr>)
     ex_client [] (ex_world []) (ex_dashboard ''staging'' ''d'' ''{d}'') =
     (NamespaceMismatch, ex_world []) \<and>
   \<not> list_ex (same_ref ''staging'' ''d'')
       (dashboardsToDelete [] [ex_dashboard ''staging'' ''d'' ''{d}''])"
proof -
  let ?r = "ex_state\<lparr>DashboardNamespaceSelector := Some (ex_selector [(''env'', ''prod'')])\<rparr>"
  let ?d = "ex_dashboard ''staging'' ''d'' ''{d}''"
  let ?step = "processDashboard ex_env ?r ex_client [] (ex_world []) ?d"
  have h1: "DashboardNamespaceSelector ?r \<noteq> None" by simp
  have h2: "checkNamespaceLabels ex_env ?r ?d = Inr False"
    by (simp add: checkNamespaceLabels_def ex_defs)
  have h3: "?step = (fst ?step, snd ?step)" by simp
  have m: "isMatch ex_env ?r ?d" by (simp add: isMatch_def ex_defs)
  have p: "snd (ProcessDashboard ex_env ?d (findHash [] ?d)) = Inr (Some ''{d}'')"
    by (simp add: ex_defs)
  have i: "?d \<in> set [?d]" by simp
  from namespace_mismatch_is_skipped [OF h1 h2 h3, of "''{d}''" "[?d]"] m p i
  have "fst ?step = NamespaceMismatch \<and> snd ?step = ex_world [] \<and>
        \<not> list_ex (same_ref (d_Namespace ?d) (d_Name ?d)) (dashboardsToDelete [] [?d])"
    by blast
  then show ?thesis using h1 h2 m
    by (simp add: prod_eq_iff ex_dashboard_def)
qed

text \<open>
  The claim C9 as the spec states it, that such a dashboard is skipped with no side
  effect, fails where the registry holds the dashboard with its current hash: the
  rendering returns nil and the plugins of the dashboard are recorded before the
  namespace is looked at.
\<close>

theorem namespace_mismatch_no_side_effect_counterexample:
  "DashboardNamespaceSelector
     (ex_state\<lparr>DashboardNamespaceSelector := Some (ex_selector [(''env'', ''prod'')])\<rparr>) \<noteq> None \<and>
   checkNamespaceLabels ex_env
     (ex_state\<lparr>DashboardNamespaceSelector := Some (ex_selector [(''env'', ''prod'')])\<rparr>)
     (ex_dashboard ''staging'' ''d'' ''{d}'') = Inr False \<and>
   Plugins (config (ex_world [ex_ref ''staging'' ''d'' ''{d}''])) (''staging'', ''d'') = None \<and>
   reconcileDashboards ex_env
     (ex_state\<lparr>DashboardNamespaceSelector := Some (ex_selector [(''env'', ''prod'')])\<rparr>)
     (ex_request ''staging'') ex_client (ex_world [ex_ref ''staging'' ''d'' ''{d}'']) =
     Inr (\<lparr>remote = 0, calls = [],
           config = \<lparr>Dashboards = [ex_ref ''staging'' ''d'' ''{d}''],
                     Plugins = [(''staging'', ''d'') \<mapsto> [''piechart'']], DashboardsSynced = True\<rparr>,
           events = []\<rparr>,
          \<lparr>Requeue = False, RequeueAfter = 0\<rparr>, None)"
  by (simp add: ex_defs controller_defs)

subsection \<open>Failures do not stop the pass\<close>

lemma same_ref_unique:
  "same_ref ns n y \<Longrightarrow> same_ref ns' n' y \<Longrightarrow> ns = ns' \<and> n = n'"
  by (simp add: same_ref_def)

lemma registered_AddDashboard:
  "registered ns n (AddDashboard d c) \<longleftrightarrow> registered ns n c \<or> (ns = d_Namespace d \<and> n = d_Name d)"
proof -
  let ?same = "same_ref (d_Namespace d) (d_Name d)"
  let ?e = "\<lparr>ref_Name = d_Name d, ref_Namespace = d_Namespace d,
             ref_UID = d_UID d, ref_Hash = d_Hash d\<rparr>"
  have e: "same_ref ns n ?e \<longleftrightarrow> ns = d_Namespace d \<and> n = d_Name d"
    by (simp add: same_ref_def eq_commute)
  show ?thesis
  proof (cases "list_ex ?same (Dashboards c)")
    case True
    then obtain x where x: "x \<in> set (Dashboards c)" "?same x"
      by (auto simp: list_ex_iff)
    have eq: "Dashboards (AddDashboard d c) = map (\<lambda>y. if ?same y then ?e else y) (Dashboards c)"
      using True by (simp add: AddDashboard_def Let_def)
    have "registered ns n (AddDashboard d c) \<longleftrightarrow>
            (\<exists>y\<in>set (Dashboards c). same_ref ns n (if ?same y then ?e else y))"
      unfolding registered_def list_ex_iff eq set_map by blast
    also have "\<dots> \<longleftrightarrow> registered ns n c \<or> (ns = d_Namespace d \<and> n = d_Name d)"
    proof
      assume "\<exists>y\<in>set (Dashboards c). same_ref ns n (if ?same y then ?e else y)"
      then obtain y where y: "y \<in> set (Dashboards c)" "same_ref ns n (if ?same y then ?e else y)"
        by blast
      show "registered ns n c \<or> (ns = d_Namespace d \<and> n = d_Name d)"
      proof (cases "?same y")
        case True
        with y(2) e show ?thesis by simp
      next
        case False
        with y show ?thesis by (auto simp: registered_def list_ex_iff)
      qed
    next
      assume "registered ns n c \<or> (ns = d_Namespace d \<and> n = d_Name d)"
      then show "\<exists>y\<in>set (Dashboards c). same_ref ns n (if ?same y then ?e else y)"
      proof
        assume "registered ns n c"
        then obtain y where y: "y \<in> set (Dashboards c)" "same_ref ns n y"
          by (auto simp: registered_def list_ex_iff)
        show ?thesis
        proof (cases "?same y")
          case True
          with same_ref_unique[OF y(2) True] e have "same_ref ns n (if ?same y then ?e else y)"
            by simp
          with y(1) show ?thesis by blast
        next
          case False
          with y show ?thesis by auto
        qed
      next
        assume "ns = d_Namespace d \<and> n = d_Name d"
        with e x(2) have "same_ref ns n (if ?same x then ?e else x)" by simp
        with x(1) show ?thesis by blast
      qed
    qed
    finally show ?thesis .
  next
    case False
    then have "Dashboards (AddDashboard d c) = Dashboards c @ [?e]"
      by (simp add: AddDashboard_def Let_def)
    then show ?thesis
      using e by (auto simp: registered_def list_ex_iff)
  qed
qed

lemma registered_SetPluginsFor [simp]:
  "registered ns n (SetPluginsFor d c) = registered ns n c"
  by (simp add: registered_def SetPluginsFor_def)

lemma processDashboard_registered:
  assumes "processDashboard env r gc known w item = (out, w')" "registered ns n (config w)"
  shows "registered ns n (config w')"
  using processDashboard_effect(3)[OF assms(1)] assms(2)
  by (auto simp: registered_AddDashboard)

lemma processDashboards_registered:
  "registered ns n (config w) \<Longrightarrow> registered ns n (config (processDashboards env r gc known items w))"
proof (induction items arbitrary: w)
  case Nil
  then show ?case by simp
next
  case (Cons d ds)
  obtain out w' where s: "processDashboard env r gc known w d = (out, w')"
    by (cases "processDashboard env r gc known w d")
  from processDashboard_registered[OF s Cons.prems] Cons.IH[of w'] s show ?case by simp
qed

lemma processDashboard_Submitted:
  assumes "processDashboard env r gc known w item = (Submitted, w')"
  shows "\<exists>payload folderId.
           snd (ProcessDashboard env item (findHash known item)) = Inr (Some payload) \<and>
           calls w' = calls w @ [FolderCall (d_Namespace item), CreateOrUpdateCall payload folderId] \<and>
           registered (d_Namespace item) (d_Name item) (config w')"
  using assms
  by (auto simp: processDashboard_def manageError_def manageSuccess_def Event_def Let_def
        registered_AddDashboard
      split: if_splits prod.splits sum.splits option.splits bool.splits)

lemma deleteDashboards_registered:
  assumes "deleteDashboards gc (dashboardsToDelete known items) w = Inr w'"
      and "item \<in> set items" "registered (d_Namespace item) (d_Name item) (config w)"
  shows "registered (d_Namespace item) (d_Name item) (config w')"
proof -
  from assms(3) obtain x where x: "x \<in> set (Dashboards (config w))"
    "ref_Namespace x = d_Namespace item" "ref_Name x = d_Name item"
    by (auto simp: registered_def list_ex_iff same_ref_def)
  have "\<not> list_ex (\<lambda>e. same_ref (ref_Namespace e) (ref_Name e) x) (dashboardsToDelete known items)"
    using x(2,3) assms(2)
    by (auto simp: list_ex_iff dashboardsToDelete_def inNamespace_iff same_ref_def)
  then have "x \<in> set (Dashboards (config w'))"
    using deleteDashboards_effect(3)[OF assms(1)] x(1) by simp
  then show ?thesis using x(2,3)
    by (auto simp: registered_def list_ex_iff same_ref_def)
qed

text \<open>
  C4. In a pass that returns, when the iteration of one dashboard of the listing ends in
  a failure (the processing, the namespace check, the folder call or the create-or-update
  call returned an error), the iteration records the warning event of that dashboard and
  leaves the registry as it is, and the loop goes on with the dashboards after it; the
  warning is among the events of the pass, and every dashboard of the listing, before or
  after the failing one, whose own iteration reaches the end of the body has had its
  create-or-update call issued, has its success event among the events of the pass and
  is registered when the pass returns.
\<close>

theorem partial_failure_isolation:
  assumes "client_List env (req_Namespace request) = Inr items"
      and "reconcileDashboards env r request gc w = Inr (w', res)"
      and "known = GetDashboards (req_Namespace request) (config w)"
      and "items = xs @ d # ys"
      and "processDashboard env r gc known (processDashboards env r gc known xs w) d = (out, wd)"
      and "is_failure out"
  shows "events wd = events (processDashboards env r gc known xs w) @
                       [dashboard_event d ''Warning'' ''ProcessingError''] \<and>
         config wd = config (processDashboards env r gc known xs w) \<and>
         processDashboards env r gc known items w = processDashboards env r gc known ys wd \<and>
         dashboard_event d ''Warning'' ''ProcessingError'' \<in> set (new_events w w') \<and>
         (\<forall>zs y ys'.
            items = zs @ y # ys' \<and>
            fst (processDashboard env r gc known (processDashboards env r gc known zs w) y) = Submitted \<longrightarrow>
              (\<exists>payload folderId.
                 snd (ProcessDashboard env y (findHash known y)) = Inr (Some payload) \<and>
                 CreateOrUpdateCall payload folderId \<in> set (new_calls w w')) \<and>
              dashboard_event y ''Normal'' ''Success'' \<in> set (new_events w w') \<and>
              registered (d_Namespace y) (d_Name y) (config w'))"
proof -
  let ?loop = "processDashboards env r gc known"
  let ?wf = "?loop items w"
  from reconcileDashboards_Inr[OF assms(1,2)] assms(3) obtain w2 where
    del: "deleteDashboards gc (dashboardsToDelete known items) ?wf = Inr w2"
    and w': "w' = w2\<lparr>config := AddConfigItem_DashboardsSynced (config w2)\<rparr>"
    by blast
  have ev': "events w' = events ?wf"
    using deleteDashboards_effect(2)[OF del] w' by simp
  have ca': "\<exists>cs. calls w' = calls ?wf @ cs"
    using deleteDashboards_effect(1)[OF del] w' by simp
  have reg': "registered (d_Namespace y) (d_Name y) (config w')"
    if "y \<in> set items" "registered (d_Namespace y) (d_Name y) (config ?wf)" for y
    using deleteDashboards_registered[OF del that] w'
    by (simp add: registered_def AddConfigItem_DashboardsSynced_def)
  have 1: "events wd = events (?loop xs w) @ [dashboard_event d ''Warning'' ''ProcessingError'']"
    using processDashboard_effect(2)[OF assms(5)] assms(6) by simp
  have 2: "config wd = config (?loop xs w)"
    using processDashboard_effect(3)[OF assms(5)] assms(6) by auto
  have 3: "?wf = ?loop ys wd"
    using assms(4,5) by (simp add: processDashboards_append)
  have in_final: "e \<in> set (new_events w w')"
    if "items = zs @ y # ys'" "events (snd (processDashboard env r gc known (?loop zs w) y)) = events (?loop zs w) @ [e]"
    for zs y ys' e
  proof -
    obtain es1 where es1: "events (?loop zs w) = events w @ es1"
      using processDashboards_events by blast
    obtain es2 where es2: "events (?loop ys' (snd (processDashboard env r gc known (?loop zs w) y))) =
        events (snd (processDashboard env r gc known (?loop zs w) y)) @ es2"
      using processDashboards_events by blast
    have "?wf = ?loop ys' (snd (processDashboard env r gc known (?loop zs w) y))"
      using that(1) by (simp add: processDashboards_append)
    then have "events w' = events w @ es1 @ [e] @ es2"
      using ev' es1 es2 that(2) by simp
    then show ?thesis by (simp add: new_events_def)
  qed
  have 4: "dashboard_event d ''Warning'' ''ProcessingError'' \<in> set (new_events w w')"
    using in_final[OF assms(4)] 1 assms(5) by simp
  have 5: "(\<exists>payload folderId.
                 snd (ProcessDashboard env y (findHash known y)) = Inr (Some payload) \<and>
                 CreateOrUpdateCall payload folderId \<in> set (new_calls w w')) \<and>
              dashboard_event y ''Normal'' ''Success'' \<in> set (new_events w w') \<and>
              registered (d_Namespace y) (d_Name y) (config w')"
    if dec: "items = zs @ y # ys'"
      and sub: "fst (processDashboard env r gc known (?loop zs w) y) = Submitted"
    for zs y ys'
  proof -
    let ?wy = "snd (processDashboard env r gc known (?loop zs w) y)"
    have s: "processDashboard env r gc known (?loop zs w) y = (Submitted, ?wy)"
      using sub by (simp add: prod_eq_iff)
    from processDashboard_Submitted[OF s] obtain payload folderId where
      p: "snd (ProcessDashboard env y (findHash known y)) = Inr (Some payload)"
      and c: "calls ?wy = calls (?loop zs w) @ [FolderCall (d_Namespace y), CreateOrUpdateCall payload folderId]"
      and rg: "registered (d_Namespace y) (d_Name y) (config ?wy)"
      by blast
    have wf: "?wf = ?loop ys' ?wy"
      using dec by (simp add: processDashboards_append)
    obtain c1 where c1: "calls (?loop zs w) = calls w @ c1"
      using processDashboards_calls by blast
    obtain c2 where c2: "calls (?loop ys' ?wy) = calls ?wy @ c2"
      using processDashboards_calls by blast
    obtain c3 where c3: "calls w' = calls ?wf @ c3" using ca' by blast
    have "calls w' = calls w @ c1 @ [FolderCall (d_Namespace y), CreateOrUpdateCall payload folderId] @ c2 @ c3"
      using c c1 c2 c3 wf by simp
    then have a: "CreateOrUpdateCall payload folderId \<in> set (new_calls w w')"
      by (simp add: new_calls_def)
    have e: "events ?wy = events (?loop zs w) @ [dashboard_event y ''Normal'' ''Success'']"
      using processDashboard_effect(2)[OF s] by simp
    have b: "dashboard_event y ''Normal'' ''Success'' \<in> set (new_events w w')"
      using in_final[OF dec e] .
    have "registered (d_Namespace y) (d_Name y) (config ?wf)"
      using processDashboards_registered[OF rg] wf by simp
    moreover have "y \<in> set items" using dec by simp
    ultimately have c: "registered (d_Namespace y) (d_Name y) (config w')"
      by (rule reg'[rotated])
    from p a have "\<exists>payload folderId.
        snd (ProcessDashboard env y (findHash known y)) = Inr (Some payload) \<and>
        CreateOrUpdateCall payload folderId \<in> set (new_calls w w')"
      by (intro exI conjI)
    with b c show ?thesis by (intro conjI)
  qed
  have all5: "\<forall>zs y ys'.
            items = zs @ y # ys' \<and>
            fst (processDashboard env r gc known (processDashboards env r gc known zs w) y) = Submitted \<longrightarrow>
              (\<exists>payload folderId.
                 snd (ProcessDashboard env y (findHash known y)) = Inr (Some payload) \<and>
                 CreateOrUpdateCall payload folderId \<in> set (new_calls w w')) \<and>
              dashboard_event y ''Normal'' ''Success'' \<in> set (new_events w w') \<and>
              registered (d_Namespace y) (d_Name y) (config w')"
    by (intro allI impI, elim conjE, rule 5)
  show ?thesis
    apply (intro conjI)
        apply (rule 1)
       apply (rule 2)
      apply (rule 3)
     apply (rule 4)
    apply (rule all5)
    done
qed

text \<open>
  The example of the spec: three dashboards in \<^verbatim>\<open>ns2\<close>, of which Grafana refuses the
  second.
\<close>

theorem partial_failure_isolation_witness:
  "reconcileDashboards ex_env ex_state (ex_request ''ns2'') ex_client (ex_world []) =
     Inr (\<lparr>remote = 6,
           calls = [FolderCall ''ns2'', CreateOrUpdateCall ''{x}'' 7,
                    FolderCall ''ns2'', CreateOrUpdateCall ''{bad}'' 7,
                    FolderCall ''ns2'', CreateOrUpdateCall ''{y}'' 7],
           config = \<lparr>Dashboards = [ex_ref ''ns2'' ''x'' ''{x}'', ex_ref ''ns2'' ''y'' ''{y}''],
                     Plugins = [(''ns2'', ''x'') \<mapsto> [''piechart''], (''ns2'', ''y'') \<mapsto> [''piechart'']],
                     DashboardsSynced = True\<rparr>,
           events = [dashboard_event (ex_dashboard ''ns2'' ''x'' ''{x}'') ''Normal'' ''Success'',
                     dashboard_event (ex_dashboard ''ns2'' ''bad'' ''{bad}'') ''Warning'' ''ProcessingError'',
                     dashboard_event (ex_dashboard ''ns2'' ''y'' ''{y}'') ''Normal'' ''Success'']\<rparr>,
          \<lparr>Requeue = False, RequeueAfter = 0\<rparr>, None) \<and>
   fst (processDashboard ex_env ex_state ex_client []
          (processDashboards ex_env ex_state ex_client [] [ex_dashboard ''ns2'' ''x'' ''{x}''] (ex_world []))
          (ex_dashboard ''ns2'' ''bad'' ''{bad}'')) = SubmitFailed (OtherError ''500'') \<and>
   registered ''ns2'' ''x''
     \<lparr>Dashboards = [ex_ref ''ns2'' ''x'' ''{x}'', ex_ref ''ns2'' ''y'' ''{y}''],
      Plugins = [(''ns2'', ''x'') \<mapsto> [''piechart''], (''ns2'', ''y'') \<mapsto> [''piechart'']],
      DashboardsSynced = True\<rparr> \<and>
   registered ''ns2'' ''y''
     \<lparr>Dashboards = [ex_ref ''ns2'' ''x'' ''{x}'', ex_ref ''ns2'' ''y'' ''{y}''],
      Plugins = [(''ns2'', ''x'') \<mapsto> [''piechart''], (''ns2'', ''y'') \<mapsto> [''piechart'']],
      DashboardsSynced = True\<rparr>"
proof -
  let ?x = "ex_dashboard ''ns2'' ''x'' ''{x}''"
  let ?bad = "ex_dashboard ''ns2'' ''bad'' ''{bad}''"
  let ?y = "ex_dashboard ''ns2'' ''y'' ''{y}''"
  let ?c' = "\<lparr>Dashboards = [ex_ref ''ns2'' ''x'' ''{x}'', ex_ref ''ns2'' ''y'' ''{y}''],
              Plugins = [(''ns2'', ''x'') \<mapsto> [''piechart''], (''ns2'', ''y'') \<mapsto> [''piechart'']],
              DashboardsSynced = True\<rparr>"
  let ?w' = "\<lparr>remote = 6,
              calls = [FolderCall ''ns2'', CreateOrUpdateCall ''{x}'' 7,
                       FolderCall ''ns2'', CreateOrUpdateCall ''{bad}'' 7,
                       FolderCall ''ns2'', CreateOrUpdateCall ''{y}'' 7],
              config = ?c',
              events = [dashboard_event ?x ''Normal'' ''Success'',
                        dashboard_event ?bad ''Warning'' ''ProcessingError'',
                        dashboard_event ?y ''Normal'' ''Success'']\<rparr>"
  let ?loop = "processDashboards ex_env ex_state ex_client []"
  let ?step = "processDashboard ex_env ex_state ex_client [] (?loop [?x] (ex_world [])) ?bad"
  have l: "client_List ex_env (req_Namespace (ex_request ''ns2'')) = Inr [?x, ?bad, ?y]"
    by (simp add: ex_env_def ex_request_def)
  have run: "reconcileDashboards ex_env ex_state (ex_request ''ns2'') ex_client (ex_world []) =
               Inr (?w', \<lparr>Requeue = False, RequeueAfter = 0\<rparr>, None)"
    by (simp add: ex_defs controller_defs)
  have k: "[] = GetDashboards (req_Namespace (ex_request ''ns2'')) (config (ex_world []))"
    by (simp add: GetDashboards_def ex_world_def)
  have i: "[?x, ?bad, ?y] = [?x] @ ?bad # [?y]" by simp
  have s: "?step = (fst ?step, snd ?step)" by simp
  have out: "fst ?step = SubmitFailed (OtherError ''500'')"
    by (simp add: ex_defs controller_defs)
  then have f: "is_failure (fst ?step)" by simp
  have sx: "fst (processDashboard ex_env ex_state ex_client [] (?loop [] (ex_world [])) ?x) = Submitted"
    by (simp add: ex_defs controller_defs)
  have sy: "fst (processDashboard ex_env ex_state ex_client [] (?loop [?x, ?bad] (ex_world [])) ?y) = Submitted"
    by (simp add: ex_defs controller_defs)
  have ix: "[?x, ?bad, ?y] = [] @ ?x # [?bad, ?y]" by simp
  have iy: "[?x, ?bad, ?y] = [?x, ?bad] @ ?y # []" by simp
  note t = partial_failure_isolation [OF l run k i s f]
  note others = t [THEN conjunct2, THEN conjunct2, THEN conjunct2, THEN conjunct2, rule_format]
  have rx: "registered (d_Namespace ?x) (d_Name ?x) ?c'"
    using others [of "[]" ?x "[?bad, ?y]", OF conjI [OF ix sx]] by simp
  have ry: "registered (d_Namespace ?y) (d_Name ?y) ?c'"
    using others [of "[?x, ?bad]" ?y "[]", OF conjI [OF iy sy]] by simp
  from rx ry show ?thesis using run out by (simp add: ex_dashboard_def)
qed

subsection \<open>Unchanged dashboards and a second pass\<close>

lemma entries_of_SetPluginsFor [simp]:
  "entries_of ns n (SetPluginsFor d c) = entries_of ns n c"
  by (simp add: entries_of_def SetPluginsFor_def)

lemma entries_of_AddDashboard_other:
  assumes "(ns, n) \<noteq> (d_Namespace d, d_Name d)"
  shows "entries_of ns n (AddDashboard d c) = entries_of ns n c"
proof -
  let ?same = "same_ref (d_Namespace d) (d_Name d)"
  let ?e = "\<lparr>ref_Name = d_Name d, ref_Namespace = d_Namespace d,
             ref_UID = d_UID d, ref_Hash = d_Hash d\<rparr>"
  have e: "\<not> same_ref ns n ?e" using assms by (auto simp: same_ref_def)
  have o: "?same y \<Longrightarrow> \<not> same_ref ns n y" for y
    using assms same_ref_unique[of ns n y "d_Namespace d" "d_Name d"] by auto
  have "filter (same_ref ns n) (map (\<lambda>y. if ?same y then ?e else y) xs) = filter (same_ref ns n) xs" for xs
    by (induction xs) (auto simp: e o)
  then show ?thesis
    using e by (simp add: entries_of_def AddDashboard_def Let_def)
qed

lemma entries_of_AddDashboard_same:
  "entries_of (d_Namespace d) (d_Name d) (AddDashboard d c) \<noteq> [] \<and>
   (\<forall>e\<in>set (entries_of (d_Namespace d) (d_Name d) (AddDashboard d c)). ref_Hash e = d_Hash d)"
proof -
  let ?same = "same_ref (d_Namespace d) (d_Name d)"
  let ?e = "\<lparr>ref_Name = d_Name d, ref_Namespace = d_Namespace d,
             ref_UID = d_UID d, ref_Hash = d_Hash d\<rparr>"
  have e: "?same ?e" by (simp add: same_ref_def)
  have m: "set (filter ?same (map (\<lambda>y. if ?same y then ?e else y) xs)) \<subseteq> {?e}" for xs
    by (induction xs) (auto simp: e)
  show ?thesis
  proof (cases "list_ex ?same (Dashboards c)")
    case True
    then obtain x where x: "x \<in> set (Dashboards c)" "?same x" by (auto simp: list_ex_iff)
    have eq: "entries_of (d_Namespace d) (d_Name d) (AddDashboard d c) =
            filter ?same (map (\<lambda>y. if ?same y then ?e else y) (Dashboards c))"
      using True by (simp add: entries_of_def AddDashboard_def Let_def)
    have "?e \<in> set (filter ?same (map (\<lambda>y. if ?same y then ?e else y) (Dashboards c)))"
      using x e by (auto simp: image_iff intro!: bexI[of _ x])
    then have "entries_of (d_Namespace d) (d_Name d) (AddDashboard d c) \<noteq> []"
      unfolding eq by (metis empty_iff empty_set)
    moreover have "\<forall>y\<in>set (entries_of (d_Namespace d) (d_Name d) (AddDashboard d c)). ref_Hash y = d_Hash d"
      unfolding eq using m[of "Dashboards c"] by auto
    ultimately show ?thesis by simp
  next
    case False
    then have "filter ?same (Dashboards c) = []"
      by (auto simp: list_ex_iff filter_empty_conv)
    then show ?thesis
      using False e by (simp add: entries_of_def AddDashboard_def Let_def)
  qed
qed

lemma processDashboard_entries_other:
  assumes "processDashboard env r gc known w item = (out, w')"
      and "(ns, n) \<noteq> (d_Namespace item, d_Name item)"
  shows "entries_of ns n (config w') = entries_of ns n (config w)"
  using processDashboard_effect(3)[OF assms(1)] assms(2)
  by (simp add: entries_of_AddDashboard_other)

lemma processDashboards_entries_other:
  "(ns, n) \<notin> (\<lambda>d. (d_Namespace d, d_Name d)) ` set items \<Longrightarrow>
     entries_of ns n (config (processDashboards env r gc known items w)) = entries_of ns n (config w)"
proof (induction items arbitrary: w)
  case Nil
  then show ?case by simp
next
  case (Cons d ds)
  obtain out w' where s: "processDashboard env r gc known w d = (out, w')"
    by (cases "processDashboard env r gc known w d")
  have "(ns, n) \<noteq> (d_Namespace d, d_Name d)" using Cons.prems by auto
  from processDashboard_entries_other[OF s this] Cons.IH[of w'] Cons.prems s
  show ?case by simp
qed

text \<open>What an iteration that is no failure tells about the collaborators.\<close>

lemma processDashboard_no_failure:
  assumes "processDashboard env r gc known w item = (out, w')" "\<not> is_failure out"
  shows "(out = SelectorMismatch \<and> \<not> isMatch env r item) \<or>
         (out = Unchanged \<and> (\<exists>st. ProcessDashboard env item (findHash known item) = (st, Inr None))) \<or>
         (out = NamespaceMismatch \<and>
            (\<exists>st p. ProcessDashboard env item (findHash known item) = (st, Inr (Some p))) \<and>
            DashboardNamespaceSelector r \<noteq> None \<and> checkNamespaceLabels env r item = Inr False) \<or>
         (out = Submitted \<and>
            (\<exists>st p. ProcessDashboard env item (findHash known item) = (st, Inr (Some p))))"
  using assms
  by (auto simp: processDashboard_def Let_def
      split: if_splits prod.splits sum.splits option.splits bool.splits)

text \<open>An iteration that reaches no call to Grafana.\<close>

lemma processDashboard_no_call:
  assumes "\<not> isMatch env r item \<or>
           snd (ProcessDashboard env item (findHash known item)) = Inr None \<or>
           ((\<exists>p. snd (ProcessDashboard env item (findHash known item)) = Inr (Some p)) \<and>
            DashboardNamespaceSelector r \<noteq> None \<and> checkNamespaceLabels env r item = Inr False)"
  shows "calls (snd (processDashboard env r gc known w item)) = calls w \<and>
         remote (snd (processDashboard env r gc known w item)) = remote w"
  using assms
  by (auto simp: processDashboard_def Let_def
      split: if_splits prod.splits sum.splits option.splits bool.splits)

lemma processDashboards_no_call:
  assumes "\<forall>item\<in>set items.
           \<not> isMatch env r item \<or>
           snd (ProcessDashboard env item (findHash known item)) = Inr None \<or>
           ((\<exists>p. snd (ProcessDashboard env item (findHash known item)) = Inr (Some p)) \<and>
            DashboardNamespaceSelector r \<noteq> None \<and> checkNamespaceLabels env r item = Inr False)"
  shows "calls (processDashboards env r gc known items w) = calls w \<and>
         remote (processDashboards env r gc known items w) = remote w"
  using assms
proof (induction items arbitrary: w)
  case Nil
  then show ?case by simp
next
  case (Cons d ds)
  have "calls (snd (processDashboard env r gc known w d)) = calls w \<and>
        remote (snd (processDashboard env r gc known w d)) = remote w"
    by (rule processDashboard_no_call) (use Cons.prems in simp)
  moreover have "calls (processDashboards env r gc known ds (snd (processDashboard env r gc known w d))) =
                 calls (snd (processDashboard env r gc known w d)) \<and>
                 remote (processDashboards env r gc known ds (snd (processDashboard env r gc known w d))) =
                 remote (snd (processDashboard env r gc known w d))"
    by (rule Cons.IH) (use Cons.prems in simp)
  ultimately show ?case by simp
qed

lemma new_events_append:
  "events w' = events w @ es \<Longrightarrow> new_events w w' = es"
  by (simp add: new_events_def)

text \<open>After a create loop that recorded no warning, every dashboard of the listing was
  out of scope, unchanged, skipped for its namespace, or submitted and registered with
  the hash of its rendering.\<close>

lemma processDashboards_no_warning:
  assumes "distinct (map (\<lambda>d. (d_Namespace d, d_Name d)) items)"
      and "\<forall>e\<in>set (new_events w (processDashboards env r gc known items w)). ev_Type e \<noteq> ''Warning''"
      and "item \<in> set items"
  shows "\<not> isMatch env r item \<or>
         ((\<exists>st. ProcessDashboard env item (findHash known item) = (st, Inr None)) \<and>
          entries_of (d_Namespace item) (d_Name item) (config (processDashboards env r gc known items w)) =
            entries_of (d_Namespace item) (d_Name item) (config w)) \<or>
         ((\<exists>st p. ProcessDashboard env item (findHash known item) = (st, Inr (Some p))) \<and>
          DashboardNamespaceSelector r \<noteq> None \<and> checkNamespaceLabels env r item = Inr False \<and>
          entries_of (d_Namespace item) (d_Name item) (config (processDashboards env r gc known items w)) =
            entries_of (d_Namespace item) (d_Name item) (config w)) \<or>
         (\<exists>st p. ProcessDashboard env item (findHash known item) = (st, Inr (Some p)) \<and>
            entries_of (d_Namespace item) (d_Name item) (config (processDashboards env r gc known items w)) \<noteq> [] \<and>
            (\<forall>e\<in>set (entries_of (d_Namespace item) (d_Name item)
                          (config (processDashboards env r gc known items w))). ref_Hash e = fst st))"
  using assms
proof (induction items arbitrary: w)
  case Nil
  then show ?case by simp
next
  case (Cons d ds)
  let ?loop = "processDashboards env r gc known"
  obtain out w' where s: "processDashboard env r gc known w d = (out, w')"
    by (cases "processDashboard env r gc known w d")
  have wf: "?loop (d # ds) w = ?loop ds w'" using s by simp
  obtain es where es: "events (?loop ds w') = events w' @ es"
    using processDashboards_events by blast
  let ?e1 = "if is_failure out then [dashboard_event d ''Warning'' ''ProcessingError'']
             else if out = Submitted then [dashboard_event d ''Normal'' ''Success''] else []"
  have e1: "events w' = events w @ ?e1"
    using processDashboard_effect(2)[OF s] .
  have "events (?loop (d # ds) w) = events w @ (?e1 @ es)"
    using wf es e1 by simp
  then have ne: "new_events w (?loop (d # ds) w) = ?e1 @ es"
    by (rule new_events_append)
  have ne': "new_events w' (?loop ds w') = es"
    using es by (rule new_events_append)
  have nowarn1: "\<forall>e\<in>set ?e1. ev_Type e \<noteq> ''Warning''"
    using Cons.prems(2) ne by simp
  have nf: "\<not> is_failure out"
  proof
    assume "is_failure out"
    then have "dashboard_event d ''Warning'' ''ProcessingError'' \<in> set ?e1" by simp
    with nowarn1 have "ev_Type (dashboard_event d ''Warning'' ''ProcessingError'') \<noteq> ''Warning''"
      by blast
    then show False by (simp add: dashboard_event_def)
  qed
  have nowarn2: "\<forall>e\<in>set (new_events w' (?loop ds w')). ev_Type e \<noteq> ''Warning''"
    using Cons.prems(2) ne ne' by simp
  have dist: "distinct (map (\<lambda>d. (d_Namespace d, d_Name d)) ds)"
    and dnot: "(d_Namespace d, d_Name d) \<notin> (\<lambda>d. (d_Namespace d, d_Name d)) ` set ds"
    using Cons.prems(1) by simp_all
  show ?case
  proof (cases "item = d")
    case True
    have keep: "entries_of (d_Namespace d) (d_Name d) (config (?loop ds w')) =
                entries_of (d_Namespace d) (d_Name d) (config w')"
      using processDashboards_entries_other[OF dnot] .
    note cfg = processDashboard_effect(3)[OF s]
    from processDashboard_no_failure[OF s nf] show ?thesis
    proof (elim disjE conjE exE)
      assume "out = SelectorMismatch" "\<not> isMatch env r d"
      then show ?thesis using True by simp
    next
      fix st
      assume o: "out = Unchanged" and p: "ProcessDashboard env d (findHash known d) = (st, Inr None)"
      have "entries_of (d_Namespace d) (d_Name d) (config w') =
            entries_of (d_Namespace d) (d_Name d) (config w)"
        using cfg o by simp
      with keep p show ?thesis unfolding wf True by auto
    next
      fix st p
      assume o: "out = NamespaceMismatch"
        and p: "ProcessDashboard env d (findHash known d) = (st, Inr (Some p))"
        and n: "DashboardNamespaceSelector r \<noteq> None" "checkNamespaceLabels env r d = Inr False"
      have "entries_of (d_Namespace d) (d_Name d) (config w') =
            entries_of (d_Namespace d) (d_Name d) (config w)"
        using cfg o by simp
      with keep p n show ?thesis unfolding wf True by auto
    next
      fix st p
      assume o: "out = Submitted"
        and p: "ProcessDashboard env d (findHash known d) = (st, Inr (Some p))"
      let ?d' = "rendered env known d"
      have h: "d_Hash ?d' = fst st" using p by (simp add: rendered_def Let_def)
      have "entries_of (d_Namespace d) (d_Name d) (config w') =
            entries_of (d_Namespace ?d') (d_Name ?d') (AddDashboard ?d' (config w))"
        using cfg o by simp
      with entries_of_AddDashboard_same[of ?d' "config w"] h
      have "entries_of (d_Namespace d) (d_Name d) (config w') \<noteq> [] \<and>
            (\<forall>e\<in>set (entries_of (d_Namespace d) (d_Name d) (config w')). ref_Hash e = fst st)"
        by simp
      with keep p show ?thesis unfolding wf True by auto
    qed
  next
    case False
    have in_ds: "item \<in> set ds" using Cons.prems(3) False by auto
    have "(d_Namespace item, d_Name item) \<in> (\<lambda>d. (d_Namespace d, d_Name d)) ` set ds"
      by (rule image_eqI[OF refl in_ds])
    with dnot have "(d_Namespace item, d_Name item) \<noteq> (d_Namespace d, d_Name d)"
      by metis
    from processDashboard_entries_other[OF s this]
    have same: "entries_of (d_Namespace item) (d_Name item) (config w') =
                entries_of (d_Namespace item) (d_Name item) (config w)" .
    from Cons.IH[OF dist nowarn2 in_ds] show ?thesis
      unfolding wf same .
  qed
qed

lemma deleteDashboards_entries_listed:
  assumes "deleteDashboards gc (dashboardsToDelete known items) w = Inr w'"
      and "item \<in> set items"
  shows "entries_of (d_Namespace item) (d_Name item) (config w') =
         entries_of (d_Namespace item) (d_Name item) (config w)"
proof -
  let ?del = "dashboardsToDelete known items"
  let ?same = "same_ref (d_Namespace item) (d_Name item)"
  have keep: "\<not> list_ex (\<lambda>e. same_ref (ref_Namespace e) (ref_Name e) x) ?del" if "?same x" for x
    using that assms(2)
    by (auto simp: list_ex_iff dashboardsToDelete_def inNamespace_iff same_ref_def)
  have "filter ?same (filter (\<lambda>x. \<not> list_ex (\<lambda>e. same_ref (ref_Namespace e) (ref_Name e) x) ?del) xs) =
        filter ?same xs" for xs
    by (induction xs) (auto simp: keep)
  then show ?thesis
    using deleteDashboards_effect(3)[OF assms(1)] by (simp add: entries_of_def)
qed

lemma AddDashboard_identities:
  assumes "e \<in> set (Dashboards (AddDashboard d c))"
  shows "(\<exists>e0\<in>set (Dashboards c). ref_Namespace e0 = ref_Namespace e \<and> ref_Name e0 = ref_Name e) \<or>
         (d_Namespace d = ref_Namespace e \<and> d_Name d = ref_Name e)"
proof (cases "list_ex (same_ref (d_Namespace d) (d_Name d)) (Dashboards c)")
  case True
  let ?f = "\<lambda>x. if same_ref (d_Namespace d) (d_Name d) x
                then \<lparr>ref_Name = d_Name d, ref_Namespace = d_Namespace d,
                      ref_UID = d_UID d, ref_Hash = d_Hash d\<rparr> else x"
  from True have eq: "Dashboards (AddDashboard d c) = map ?f (Dashboards c)"
    by (simp add: AddDashboard_def Let_def)
  from assms have "e \<in> ?f ` set (Dashboards c)"
    unfolding eq set_map .
  then obtain x where x: "e = ?f x" "x \<in> set (Dashboards c)"
    by (rule imageE)
  show ?thesis
  proof (cases "same_ref (d_Namespace d) (d_Name d) x")
    case True
    with x(1) show ?thesis by simp
  next
    case False
    with x have "e \<in> set (Dashboards c)" by simp
    then show ?thesis by blast
  qed
next
  case False
  then have "Dashboards (AddDashboard d c) =
      Dashboards c @ [\<lparr>ref_Name = d_Name d, ref_Namespace = d_Namespace d,
                        ref_UID = d_UID d, ref_Hash = d_Hash d\<rparr>]"
    by (simp add: AddDashboard_def Let_def)
  with assms show ?thesis by auto
qed

lemma processDashboard_identities:
  assumes "processDashboard env r gc known w item = (out, w')"
      and "e \<in> set (Dashboards (config w'))"
  shows "(\<exists>e0\<in>set (Dashboards (config w)). ref_Namespace e0 = ref_Namespace e \<and> ref_Name e0 = ref_Name e) \<or>
         (d_Namespace item = ref_Namespace e \<and> d_Name item = ref_Name e)"
proof (cases "out = Submitted")
  case True
  then have "Dashboards (config w') = Dashboards (AddDashboard (rendered env known item) (config w))"
    using processDashboard_effect(3)[OF assms(1)] by (simp add: SetPluginsFor_def)
  with assms(2) AddDashboard_identities[of e "rendered env known item" "config w"]
  show ?thesis by simp
next
  case False
  then have "Dashboards (config w') = Dashboards (config w)"
    using processDashboard_effect(3)[OF assms(1)] by (simp add: SetPluginsFor_def)
  with assms(2) show ?thesis by auto
qed

lemma processDashboards_identities:
  "e \<in> set (Dashboards (config (processDashboards env r gc known items w))) \<Longrightarrow>
     (\<exists>e0\<in>set (Dashboards (config w)). ref_Namespace e0 = ref_Namespace e \<and> ref_Name e0 = ref_Name e) \<or>
     (\<exists>d\<in>set items. d_Namespace d = ref_Namespace e \<and> d_Name d = ref_Name e)"
proof (induction items arbitrary: w)
  case Nil
  then show ?case by auto
next
  case (Cons d ds)
  obtain out w' where s: "processDashboard env r gc known w d = (out, w')"
    by (cases "processDashboard env r gc known w d")
  from Cons.prems s have "e \<in> set (Dashboards (config (processDashboards env r gc known ds w')))"
    by simp
  from Cons.IH[OF this] show ?case
  proof
    assume "\<exists>e0\<in>set (Dashboards (config w')). ref_Namespace e0 = ref_Namespace e \<and> ref_Name e0 = ref_Name e"
    then obtain e0 where e0: "e0 \<in> set (Dashboards (config w'))"
      "ref_Namespace e0 = ref_Namespace e" "ref_Name e0 = ref_Name e" by blast
    from processDashboard_identities[OF s e0(1)] e0(2,3) show ?thesis by auto
  next
    assume "\<exists>d\<in>set ds. d_Namespace d = ref_Namespace e \<and> d_Name d = ref_Name e"
    then show ?thesis by auto
  qed
qed

lemma findHash_GetDashboards:
  assumes "d_Namespace item = ns"
  shows "findHash (GetDashboards ns c) item =
           (case entries_of (d_Namespace item) (d_Name item) c of [] \<Rightarrow> [] | e # _ \<Rightarrow> ref_Hash e)"
proof -
  have "filter (same_ref (d_Namespace item) (d_Name item)) (filter (\<lambda>e. ref_Namespace e = ns) xs) =
        filter (same_ref (d_Namespace item) (d_Name item)) xs" for xs
    using assms by (induction xs) (auto simp: same_ref_def)
  then show ?thesis
    by (simp add: findHash_entries GetDashboards_def entries_of_def)
qed

text \<open>After a pass that returned, the registry of the namespace holds only identities of the listing.\<close>

lemma nothing_left_to_delete:
  assumes "deleteDashboards gc (dashboardsToDelete (GetDashboards ns (config w)) items)
             (processDashboards env r gc known items w) = Inr w2"
  shows "dashboardsToDelete (GetDashboards ns (config w2)) items = []"
proof -
  let ?wf = "processDashboards env r gc known items w"
  let ?del = "dashboardsToDelete (GetDashboards ns (config w)) items"
  have "inNamespace items e" if e: "e \<in> set (GetDashboards ns (config w2))" for e
  proof -
    from e have ens: "ref_Namespace e = ns" and e2: "e \<in> set (Dashboards (config w2))"
      by (simp_all add: GetDashboards_def)
    from e2 deleteDashboards_effect(3)[OF assms]
    have ef: "e \<in> set (Dashboards (config ?wf))"
      and nd: "\<not> list_ex (\<lambda>e'. same_ref (ref_Namespace e') (ref_Name e') e) ?del"
      by simp_all
    from processDashboards_identities[OF ef] show ?thesis
    proof
      assume "\<exists>e0\<in>set (Dashboards (config w)). ref_Namespace e0 = ref_Namespace e \<and> ref_Name e0 = ref_Name e"
      then obtain e0 where e0: "e0 \<in> set (Dashboards (config w))"
        "ref_Namespace e0 = ref_Namespace e" "ref_Name e0 = ref_Name e" by blast
      have k: "e0 \<in> set (GetDashboards ns (config w))"
        using e0(1,2) ens by (simp add: GetDashboards_def)
      have "inNamespace items e0"
      proof (rule ccontr)
        assume "\<not> inNamespace items e0"
        with k have "e0 \<in> set ?del" by (simp add: dashboardsToDelete_def)
        moreover have "same_ref (ref_Namespace e0) (ref_Name e0) e"
          using e0(2,3) by (simp add: same_ref_def)
        ultimately have "list_ex (\<lambda>e'. same_ref (ref_Namespace e') (ref_Name e') e) ?del"
          unfolding list_ex_iff by blast
        with nd show False by simp
      qed
      then show ?thesis using e0(2,3) by (simp add: inNamespace_iff)
    next
      assume "\<exists>d\<in>set items. d_Namespace d = ref_Namespace e \<and> d_Name d = ref_Name e"
      then show ?thesis by (auto simp: inNamespace_iff)
    qed
  qed
  then show ?thesis
    by (simp add: dashboardsToDelete_def filter_empty_conv)
qed

lemma unchanged_dashboard_step:
  assumes "isMatch env r item"
      and "snd (ProcessDashboard env item (findHash known item)) = Inr None"
  shows "processDashboard env r gc known w item =
           (Unchanged, w\<lparr>config := SetPluginsFor (rendered env known item) (config w)\<rparr>)"
  using assms
  by (auto simp: processDashboard_def rendered_def Let_def
      split: prod.splits sum.splits option.splits)

lemma second_pass_quiet:
  assumes lst: "client_List env (req_Namespace request) = Inr items"
      and dist: "distinct (map (\<lambda>d. (d_Namespace d, d_Name d)) items)"
      and nsp: "\<forall>d\<in>set items. d_Namespace d = req_Namespace request"
      and law: "\<forall>d\<in>set items. \<forall>h st p.
                  ProcessDashboard env d h = (st, Inr (Some p)) \<longrightarrow>
                  snd (ProcessDashboard env d (fst st)) = Inr None"
      and run: "reconcileDashboards env r request gc w = Inr (w1, res1)"
      and now: "\<forall>e\<in>set (new_events w w1). ev_Type e \<noteq> ''Warning''"
  shows "\<exists>w2 res2. reconcileDashboards env r request gc w1 = Inr (w2, res2) \<and>
           calls w2 = calls w1 \<and> remote w2 = remote w1"
proof -
  let ?ns = "req_Namespace request"
  let ?known = "GetDashboards ?ns (config w)"
  let ?known1 = "GetDashboards ?ns (config w1)"
  let ?wf = "processDashboards env r gc ?known items w"
  from reconcileDashboards_Inr[OF lst run] obtain wd where
    del: "deleteDashboards gc (dashboardsToDelete ?known items) ?wf = Inr wd"
    and w1: "w1 = wd\<lparr>config := AddConfigItem_DashboardsSynced (config wd)\<rparr>"
    by blast
  have ev: "events w1 = events ?wf"
    using deleteDashboards_effect(2)[OF del] w1 by simp
  have now': "\<forall>e\<in>set (new_events w ?wf). ev_Type e \<noteq> ''Warning''"
    using now ev by (simp add: new_events_def)
  have d1: "Dashboards (config w1) = Dashboards (config wd)"
    using w1 by (simp add: AddConfigItem_DashboardsSynced_def)
  have ent1: "entries_of (d_Namespace item) (d_Name item) (config w1) =
              entries_of (d_Namespace item) (d_Name item) (config ?wf)" if "item \<in> set items" for item
    using deleteDashboards_entries_listed[OF del that] d1 by (simp add: entries_of_def)
  have nodel: "dashboardsToDelete ?known1 items = []"
    using nothing_left_to_delete[OF del] d1 by (simp add: GetDashboards_def)
  have quiet: "\<not> isMatch env r item \<or>
           snd (ProcessDashboard env item (findHash ?known1 item)) = Inr None \<or>
           ((\<exists>p. snd (ProcessDashboard env item (findHash ?known1 item)) = Inr (Some p)) \<and>
            DashboardNamespaceSelector r \<noteq> None \<and> checkNamespaceLabels env r item = Inr False)"
    if it: "item \<in> set items" for item
  proof -
    have n: "d_Namespace item = ?ns" using nsp it by blast
    note h0 = findHash_GetDashboards[OF n, of "config w"]
    note h1 = findHash_GetDashboards[OF n, of "config w1"]
    from processDashboards_no_warning[OF dist now' it] show ?thesis
    proof (elim disjE conjE exE)
      assume "\<not> isMatch env r item"
      then show ?thesis by simp
    next
      fix st
      assume p: "ProcessDashboard env item (findHash ?known item) = (st, Inr None)"
        and e: "entries_of (d_Namespace item) (d_Name item) (config ?wf) =
                entries_of (d_Namespace item) (d_Name item) (config w)"
      have "findHash ?known1 item = findHash ?known item"
        unfolding h0 h1 ent1[OF it] e ..
      with p show ?thesis by simp
    next
      fix st p
      assume p: "ProcessDashboard env item (findHash ?known item) = (st, Inr (Some p))"
        and c: "DashboardNamespaceSelector r \<noteq> None" "checkNamespaceLabels env r item = Inr False"
        and e: "entries_of (d_Namespace item) (d_Name item) (config ?wf) =
                entries_of (d_Namespace item) (d_Name item) (config w)"
      have "findHash ?known1 item = findHash ?known item"
        unfolding h0 h1 ent1[OF it] e ..
      with p c show ?thesis by simp
    next
      fix st p
      assume p: "ProcessDashboard env item (findHash ?known item) = (st, Inr (Some p))"
        and ne: "entries_of (d_Namespace item) (d_Name item) (config ?wf) \<noteq> []"
        and hs: "\<forall>e\<in>set (entries_of (d_Namespace item) (d_Name item) (config ?wf)). ref_Hash e = fst st"
      from ne obtain e es where
        ees: "entries_of (d_Namespace item) (d_Name item) (config ?wf) = e # es"
        by (cases "entries_of (d_Namespace item) (d_Name item) (config ?wf)") auto
      with hs have "ref_Hash e = fst st" by simp
      then have "findHash ?known1 item = fst st"
        unfolding h1 ent1[OF it] ees by simp
      moreover from law it p have "snd (ProcessDashboard env item (fst st)) = Inr None"
        by blast
      ultimately show ?thesis by simp
    qed
  qed
  let ?w2 = "processDashboards env r gc ?known1 items w1"
  have nocall: "calls ?w2 = calls w1 \<and> remote ?w2 = remote w1"
    by (rule processDashboards_no_call) (use quiet in blast)
  have "reconcileDashboards env r request gc w1 =
          Inr (?w2\<lparr>config := AddConfigItem_DashboardsSynced (config ?w2)\<rparr>,
               \<lparr>Requeue = False, RequeueAfter = 0\<rparr>, None)"
    using lst nodel by (simp add: reconcileDashboards_def Let_def)
  with nocall show ?thesis by simp
qed

text \<open>
  C5. A dashboard that matches the selectors and whose rendering returns a nil payload
  (the known hash is the hash of its content) is not submitted: its iteration makes no
  call to Grafana and only records its plugins. Hence a second pass makes no call to
  Grafana at all: when a pass over a listing of distinct dashboards of the namespace
  returned without recording a warning, and rendering a dashboard against the hash of its
  last rendering returns a nil payload, the next pass over the same listing returns and
  leaves the calls and the state of Grafana as they were.
\<close>

theorem unchanged_dashboards_are_not_written:
  "(isMatch env r item \<and> snd (ProcessDashboard env item (findHash known item)) = Inr None \<longrightarrow>
      processDashboard env r gc known w0 item =
        (Unchanged, w0\<lparr>config := SetPluginsFor (rendered env known item) (config w0)\<rparr>)) \<and>
   (client_List env (req_Namespace request) = Inr items \<and>
    distinct (map (\<lambda>d. (d_Namespace d, d_Name d)) items) \<and>
    (\<forall>d\<in>set items. d_Namespace d = req_Namespace request) \<and>
    (\<forall>d\<in>set items. \<forall>h st p.
        ProcessDashboard env d h = (st, Inr (Some p)) \<longrightarrow>
        snd (ProcessDashboard env d (fst st)) = Inr None) \<and>
    reconcileDashboards env r request gc w = Inr (w1, res1) \<and>
    (\<forall>e\<in>set (new_events w w1). ev_Type e \<noteq> ''Warning'') \<longrightarrow>
      (\<exists>w2 res2. reconcileDashboards env r request gc w1 = Inr (w2, res2) \<and>
         calls w2 = calls w1 \<and> remote w2 = remote w1))"
proof (intro conjI impI)
  assume "isMatch env r item \<and> snd (ProcessDashboard env item (findHash known item)) = Inr None"
  then show "processDashboard env r gc known w0 item =
        (Unchanged, w0\<lparr>config := SetPluginsFor (rendered env known item) (config w0)\<rparr>)"
    using unchanged_dashboard_step by blast
next
  assume a: "client_List env (req_Namespace request) = Inr items \<and>
    distinct (map (\<lambda>d. (d_Namespace d, d_Name d)) items) \<and>
    (\<forall>d\<in>set items. d_Namespace d = req_Namespace request) \<and>
    (\<forall>d\<in>set items. \<forall>h st p.
        ProcessDashboard env d h = (st, Inr (Some p)) \<longrightarrow>
        snd (ProcessDashboard env d (fst st)) = Inr None) \<and>
    reconcileDashboards env r request gc w = Inr (w1, res1) \<and>
    (\<forall>e\<in>set (new_events w w1). ev_Type e \<noteq> ''Warning'')"
  show "\<exists>w2 res2. reconcileDashboards env r request gc w1 = Inr (w2, res2) \<and>
         calls w2 = calls w1 \<and> remote w2 = remote w1"
    by (rule second_pass_quiet[of env request items r gc w w1 res1]) (use a in simp_all)
qed

text \<open>
  The example of the spec again: \<^verbatim>\<open>a\<close> is known with its hash, and after the pass that
  created \<^verbatim>\<open>c\<close> and deleted \<^verbatim>\<open>b\<close> a second pass calls nothing.
\<close>

theorem unchanged_dashboards_are_not_written_witness:
  "processDashboard ex_env ex_state ex_client
     [ex_ref ''ns1'' ''a'' ''{a}'', ex_ref ''ns1'' ''b'' ''{b}'']
     (ex_world [ex_ref ''ns1'' ''a'' ''{a}'', ex_ref ''ns1'' ''b'' ''{b}''])
     (ex_dashboard ''ns1'' ''a'' ''{a}'') =
     (Unchanged,
      \<lparr>remote = 0, calls = [],
       config = \<lparr>Dashboards = [ex_ref ''ns1'' ''a'' ''{a}'', ex_ref ''ns1'' ''b'' ''{b}''],
                 Plugins = [(''ns1'', ''a'') \<mapsto> [''piechart'']], DashboardsSynced = False\<rparr>,
       events = []\<rparr>) \<and>
   (\<exists>w2 res2.
      reconcileDashboards ex_env ex_state (ex_request ''ns1'') ex_client
        \<lparr>remote = 3,
         calls = [FolderCall ''ns1'', CreateOrUpdateCall ''{c}'' 7, DeleteCall ''uid-b''],
         config = \<lparr>Dashboards = [ex_ref ''ns1'' ''a'' ''{a}'', ex_ref ''ns1'' ''c'' ''{c}''],
                   Plugins = [(''ns1'', ''a'') \<mapsto> [''piechart''], (''ns1'', ''c'') \<mapsto> [''piechart'']],
                   DashboardsSynced = True\<rparr>,
         events = [dashboard_event (ex_dashboard ''ns1'' ''c'' ''{c}'') ''Normal'' ''Success'']\<rparr> =
        Inr (w2, res2) \<and>
      calls w2 = [FolderCall ''ns1'', CreateOrUpdateCall ''{c}'' 7, DeleteCall ''uid-b''] \<and>
      remote w2 = 3)"
proof -
  let ?a = "ex_dashboard ''ns1'' ''a'' ''{a}''"
  let ?c = "ex_dashboard ''ns1'' ''c'' ''{c}''"
  let ?known = "[ex_ref ''ns1'' ''a'' ''{a}'', ex_ref ''ns1'' ''b'' ''{b}'']"
  let ?w = "ex_world ?known"
  let ?w1 = "\<lparr>remote = 3::nat,
              calls = [FolderCall ''ns1'', CreateOrUpdateCall ''{c}'' 7, DeleteCall ''uid-b''],
              config = \<lparr>Dashboards = [ex_ref ''ns1'' ''a'' ''{a}'', ex_ref ''ns1'' ''c'' ''{c}''],
                        Plugins = [(''ns1'', ''a'') \<mapsto> [''piechart''], (''ns1'', ''c'') \<mapsto> [''piechart'']],
                        DashboardsSynced = True\<rparr>,
              events = [dashboard_event ?c ''Normal'' ''Success'']\<rparr>"
  note t = unchanged_dashboards_are_not_written
             [where env = ex_env and r = ex_state and item = ?a and known = ?known and gc = ex_client
                and ?w0.0 = ?w and request = "ex_request ''ns1''" and items = "[?a, ?c]" and w = ?w
                and ?w1.0 = ?w1 and ?res1.0 = "(\<lparr>Requeue = False, RequeueAfter = 0\<rparr>, None)"]
  have m: "isMatch ex_env ex_state ?a" by (simp add: isMatch_def ex_defs)
  have p: "snd (ProcessDashboard ex_env ?a (findHash ?known ?a)) = Inr None"
    by (simp add: ex_defs)
  have l: "client_List ex_env (req_Namespace (ex_request ''ns1'')) = Inr [?a, ?c]"
    by (simp add: ex_env_def ex_request_def)
  have di: "distinct (map (\<lambda>d. (d_Namespace d, d_Name d)) [?a, ?c])"
    by (simp add: ex_dashboard_def)
  have ns: "\<forall>d\<in>set [?a, ?c]. d_Namespace d = req_Namespace (ex_request ''ns1'')"
    by (simp add: ex_dashboard_def ex_request_def)
  have law: "\<forall>d\<in>set [?a, ?c]. \<forall>h st p.
               ProcessDashboard ex_env d h = (st, Inr (Some p)) \<longrightarrow>
               snd (ProcessDashboard ex_env d (fst st)) = Inr None"
    by (auto simp: ex_env_def ex_dashboard_def split: if_splits)
  have run: "reconcileDashboards ex_env ex_state (ex_request ''ns1'') ex_client ?w =
               Inr (?w1, \<lparr>Requeue = False, RequeueAfter = 0\<rparr>, None)"
    by (simp add: ex_defs controller_defs)
  have nw: "\<forall>e\<in>set (new_events ?w ?w1). ev_Type e \<noteq> ''Warning''"
    by (simp add: new_events_def ex_world_def dashboard_event_def)
  from t [THEN conjunct1, rule_format, OF conjI [OF m p]]
  have 1: "processDashboard ex_env ex_state ex_client ?known ?w ?a =
             (Unchanged, ?w\<lparr>config := SetPluginsFor (rendered ex_env ?known ?a) (config ?w)\<rparr>)" .
  from t [THEN conjunct2, rule_format, OF conjI [OF l conjI [OF di conjI [OF ns conjI [OF law conjI [OF run nw]]]]]]
  have 2: "\<exists>w2 res2. reconcileDashboards ex_env ex_state (ex_request ''ns1'') ex_client ?w1 = Inr (w2, res2) \<and>
             calls w2 = calls ?w1 \<and> remote w2 = remote ?w1" .
  from 1 2 show ?thesis
    by (simp add: ex_defs SetPluginsFor_def rendered_def Let_def)
qed

end
